theory Spec2Isabelle
  imports Complex_Main "HOL-Library.Log_Nat"
begin

section \<open>JavaScript numbers\<close>

text \<open>
  Every number of the source is an IEEE 754 binary64 value and every arithmetic
  operation rounds its exact result to the nearest such value, ties to the even
  significand. Finite values are modelled by the rational they denote.
  \<open>exponent x\<close> is the binary exponent of a non-zero \<open>x\<close>, that is the \<open>e\<close> with
  \<open>2 ^ e \<le> \<bar>x\<bar> < 2 ^ (e + 1)\<close>; \<open>to_double\<close> rounds to 53 significant bits,
  on the fixed grid of the subnormal numbers below \<open>2 ^ - 1022\<close>. A result beyond
  the largest finite value is an infinity. No operation of the pagination arithmetic
  produces a NaN from finite operands and a positive page size.
\<close>

definition exponent :: "rat \<Rightarrow> int" where
  "exponent x =
     (if 1 \<le> \<bar>x\<bar> then bitlen \<lfloor>\<bar>x\<bar>\<rfloor> - 1 else - bitlen (\<lceil>1 / \<bar>x\<bar>\<rceil> - 1))"

definition round_even :: "rat \<Rightarrow> int" where
  "round_even y =
     (let f = \<lfloor>y\<rfloor>; d = y - of_int f
      in if d < 1 / 2 then f else if 1 / 2 < d then f + 1 else if even f then f else f + 1)"

definition to_double :: "rat \<Rightarrow> rat" where
  "to_double x =
     (if x = 0 then 0
      else (let u = 2 powi (max (exponent x) (- 1022) - 52)
            in of_int (round_even (x / u)) * u))"

datatype js_number = Finite rat | PosInfinity | NegInfinity

definition MAX_VALUE :: rat where
  "MAX_VALUE = (2 ^ 53 - 1) * 2 ^ 971"

definition js_round :: "rat \<Rightarrow> js_number" where
  "js_round x =
     (let r = to_double x
      in if MAX_VALUE < r then PosInfinity
         else if r < - MAX_VALUE then NegInfinity
         else Finite r)"

text \<open>Sum and product of a number with a finite one (not zero, for the product),
  and the smaller of two numbers.\<close>

fun js_plus :: "js_number \<Rightarrow> rat \<Rightarrow> js_number" where
  "js_plus (Finite x) y = js_round (x + y)"
| "js_plus PosInfinity y = PosInfinity"
| "js_plus NegInfinity y = NegInfinity"

fun js_times :: "js_number \<Rightarrow> rat \<Rightarrow> js_number" where
  "js_times (Finite x) y = js_round (x * y)"
| "js_times PosInfinity y = (if 0 < y then PosInfinity else NegInfinity)"
| "js_times NegInfinity y = (if 0 < y then NegInfinity else PosInfinity)"

fun js_min :: "js_number \<Rightarrow> js_number \<Rightarrow> js_number" where
  "js_min (Finite x) (Finite y) = Finite (min x y)"
| "js_min NegInfinity y = NegInfinity"
| "js_min x NegInfinity = NegInfinity"
| "js_min PosInfinity y = y"
| "js_min x PosInfinity = x"

text \<open>
  The sum of two whole numbers as the source computes it. The result is a whole
  number again: a finite value of magnitude \<open>2 ^ 52\<close> or more has no
  fractional part, and a smaller sum is exact.
\<close>

definition js_int_plus :: "int \<Rightarrow> int \<Rightarrow> int" where
  "js_int_plus a b = \<lfloor>to_double (of_int a + of_int b)\<rfloor>"

section \<open>Pagination arithmetic of the list pages\<close>

text \<open>
  Both list pages (appointments and sellers) derive the same values from the total
  count reported by the server and the current page. Counts and page numbers are
  whole numbers held in JavaScript numbers: \<open>tot\<close> and \<open>currentPage\<close> stand for
  integers that are finite binary64 values, and the page size \<open>ps\<close> for the
  positive constant \<open>PAGE_SIZE\<close>, which is 20 on the appointments page and 50 on
  the sellers page. The quotient \<open>total / PAGE_SIZE\<close> is rounded before
  \<open>Math.ceil\<close> sees it; \<open>Math.ceil\<close>, \<open>Math.max\<close> and \<open>Math.min\<close> are exact,
  so \<open>totalPages\<close> and \<open>effectivePage\<close> are integers again. The difference, the
  products and the sum behind \<open>showingFrom\<close> and \<open>showingTo\<close> are rounded one by
  one.
\<close>

definition APPOINTMENTS_PAGE_SIZE :: int where
  "APPOINTMENTS_PAGE_SIZE = 20"

definition SELLERS_PAGE_SIZE :: int where
  "SELLERS_PAGE_SIZE = 50"

definition totalPages :: "int \<Rightarrow> int \<Rightarrow> int" where
  "totalPages ps tot = max 1 \<lceil>to_double (of_int tot / of_int ps)\<rceil>"

definition effectivePage :: "int \<Rightarrow> int \<Rightarrow> int \<Rightarrow> int" where
  "effectivePage ps currentPage tot = min currentPage (totalPages ps tot)"

definition showingFrom :: "int \<Rightarrow> int \<Rightarrow> int \<Rightarrow> js_number" where
  "showingFrom ps currentPage tot =
     (if tot = 0 then Finite 0
      else js_plus
             (js_times (js_plus (Finite (of_int (effectivePage ps currentPage tot))) (- 1))
                (of_int ps))
             1)"

definition showingTo :: "int \<Rightarrow> int \<Rightarrow> int \<Rightarrow> js_number" where
  "showingTo ps currentPage tot =
     (if tot = 0 then Finite 0
      else js_min (js_times (Finite (of_int (effectivePage ps currentPage tot))) (of_int ps))
             (Finite (of_int tot)))"

definition canGoPrevious :: "int \<Rightarrow> int \<Rightarrow> int \<Rightarrow> bool" where
  "canGoPrevious ps currentPage tot \<longleftrightarrow> effectivePage ps currentPage tot > 1"

definition canGoNext :: "int \<Rightarrow> int \<Rightarrow> int \<Rightarrow> bool" where
  "canGoNext ps currentPage tot \<longleftrightarrow>
     effectivePage ps currentPage tot < totalPages ps tot \<and> tot > 0"

text \<open>The page indicator of both pages prints \<open>total > 0 ? effectivePage : 1\<close>.\<close>

definition displayedPage :: "int \<Rightarrow> int \<Rightarrow> int \<Rightarrow> int" where
  "displayedPage ps currentPage tot =
     (if tot > 0 then effectivePage ps currentPage tot else 1)"

section \<open>State shared by the two list pages\<close>

text \<open>
  Each page component keeps its state in React state cells. The cells that both
  pages declare under the same name form the base record; \<open>total_count\<close> is the
  cell the source calls \<open>total\<close>. The form fields of the modal dialogs and the lead
  lookup of the appointments page do not take part in the list controller and are
  left out. The element type of the list is a parameter.
\<close>

record page_state =
  total_count :: int
  currentPage :: int
  isLoading :: bool
  error :: "string option"
  isModalOpen :: bool

text \<open>The body of a successful list response: \<open>data\<close>, \<open>total\<close> and \<open>page\<close>
  (read with \<open>??\<close>, so it may be absent).\<close>

record 'a list_response =
  resp_data :: "'a list"
  resp_total :: int
  resp_page :: "int option"

text \<open>A page result as the server produces it: a total that is not negative and,
  when the page is reported, a page from 1 on.\<close>

definition conforming :: "'a list_response \<Rightarrow> bool" where
  "conforming resp \<longleftrightarrow>
     0 \<le> resp_total resp \<and> (case resp_page resp of None \<Rightarrow> True | Some p \<Rightarrow> 1 \<le> p)"

text \<open>
  One invocation of a fetch function is suspended at its \<open>await\<close>; what it still
  knows when it resumes are the constants it bound before: the page it asked for and
  the page that was current when it started.
\<close>

record fetch_call =
  pageToFetch :: int
  previousPage :: int

section \<open>The sellers page\<close>

record 'a sellers_state = page_state +
  sellers :: "'a list"
  search :: string
  lastFetchedSearch :: string
  editingSellerId :: "string option"
  sellerPendingDeletion :: "'a option"
  isDeleting :: bool
  latestRequestRef :: nat
  delay :: "(nat \<times> string) option"

text \<open>
  \<open>delay\<close> is the pending timeout of the debounce effect: the time left until it
  fires and the search text its callback captured. \<open>None\<close> means no timeout is
  armed. \<open>latestRequestRef\<close> is the counter behind the ref of that name; it
  starts at 0 and goes up by one with every request, which is exact for the first
  \<open>2 ^ 53\<close> requests, and is modelled as a natural number.
\<close>

record sellers_fetch = fetch_call +
  requestId :: nat
  searchTerm :: string

definition sellers_initial :: "'a sellers_state" where
  "sellers_initial =
     \<lparr>total_count = 0, currentPage = 1, isLoading = True, error = None,
      isModalOpen = False,
      sellers = [], search = '''', lastFetchedSearch = '''', editingSellerId = None,
      sellerPendingDeletion = None, isDeleting = False, latestRequestRef = 0,
      delay = None\<rparr>"

definition isSearchDirty :: "'a sellers_state \<Rightarrow> bool" where
  "isSearchDirty s \<longleftrightarrow> search s \<noteq> lastFetchedSearch s"

definition sellers_hasFilters :: "'a sellers_state \<Rightarrow> bool" where
  "sellers_hasFilters s \<longleftrightarrow> lastFetchedSearch s \<noteq> ''''"

text \<open>The query parameters of the request: page, limit and \<open>searchTerm || undefined\<close>.\<close>

definition sellers_params :: "sellers_fetch \<Rightarrow> int \<times> int \<times> string option" where
  "sellers_params rq =
     (pageToFetch rq, SELLERS_PAGE_SIZE,
      if searchTerm rq = '''' then None else Some (searchTerm rq))"

text \<open>
  \<open>fetchSellers\<close> up to its \<open>await\<close>. The callback is memoised on
  \<open>currentPage\<close> and \<open>lastFetchedSearch\<close>: \<open>cp\<close> and \<open>lfs\<close> are the values of
  these two cells that the invoked closure captured, \<open>s\<close> is the state the setters
  and the request counter act on. The result is the state after the synchronous
  part and the suspended invocation.
\<close>

definition fetchSellers ::
  "int \<Rightarrow> string \<Rightarrow> int option \<Rightarrow> string option \<Rightarrow> 'a sellers_state
     \<Rightarrow> 'a sellers_state \<times> sellers_fetch" where
  "fetchSellers cp lfs optPage optSearchTerm s =
     (let page = (case optPage of Some p \<Rightarrow> p | None \<Rightarrow> cp);
          term = (case optSearchTerm of Some t \<Rightarrow> t | None \<Rightarrow> lfs);
          s1 = (if page \<noteq> cp then s\<lparr>currentPage := page\<rparr> else s);
          rid = Suc (latestRequestRef s1);
          s2 = s1\<lparr>latestRequestRef := rid, isLoading := True, error := None\<rparr>
      in (s2, \<lparr>pageToFetch = page, previousPage = cp, requestId = rid, searchTerm = term\<rparr>))"

text \<open>The continuation after a successful response.\<close>

definition fetchSellers_resolved ::
  "sellers_fetch \<Rightarrow> 'a list_response \<Rightarrow> 'a sellers_state \<Rightarrow> 'a sellers_state" where
  "fetchSellers_resolved rq resp s =
     (if requestId rq \<noteq> latestRequestRef s then s
      else s\<lparr>sellers := resp_data resp,
             total_count := resp_total resp,
             currentPage := (case resp_page resp of Some p \<Rightarrow> p | None \<Rightarrow> pageToFetch rq),
             lastFetchedSearch := searchTerm rq,
             isLoading := False\<rparr>)"

text \<open>The continuation after a failed request: the \<open>catch\<close> and \<open>finally\<close> blocks.\<close>

definition fetchSellers_rejected :: "sellers_fetch \<Rightarrow> 'a sellers_state \<Rightarrow> 'a sellers_state" where
  "fetchSellers_rejected rq s =
     (let s1 = (if requestId rq = latestRequestRef s
                then (let s' = s\<lparr>error := Some ''Nao foi possivel carregar os vendedores.''\<rparr>
                      in if pageToFetch rq \<noteq> previousPage rq
                         then s'\<lparr>currentPage := previousPage rq\<rparr> else s')
                else s)
      in if requestId rq = latestRequestRef s1 then s1\<lparr>isLoading := False\<rparr> else s1)"

text \<open>
  The debounce effect has the dependencies \<open>fetchSellers\<close>, \<open>isSearchDirty\<close> and
  \<open>search\<close>; the identity of \<open>fetchSellers\<close> changes exactly when \<open>currentPage\<close>
  or \<open>lastFetchedSearch\<close> does. After a render in which none of them changed the
  effect is left alone. Otherwise its cleanup clears the timeout and the effect runs
  again: it returns at once when the search is not dirty and arms a timeout of 300
  units capturing the current search text when it is. \<open>prev\<close> is the state of the
  previous render.
\<close>

definition debounceEffect :: "'a sellers_state \<Rightarrow> 'a sellers_state \<Rightarrow> 'a sellers_state" where
  "debounceEffect prev s =
     (if currentPage s = currentPage prev \<and> lastFetchedSearch s = lastFetchedSearch prev
         \<and> search s = search prev
      then s
      else if \<not> isSearchDirty s then s\<lparr>delay := None\<rparr>
      else s\<lparr>delay := Some (300, search s)\<rparr>)"

text \<open>
  One unit of time passes. A timeout that expires runs its callback
  \<open>fetchSellers ({page: 1, searchTerm: search})\<close> with the captured search text.
\<close>

definition timerTick :: "'a sellers_state \<Rightarrow> 'a sellers_state \<times> sellers_fetch list" where
  "timerTick s =
     (case delay s of
        None \<Rightarrow> (s, [])
      | Some (r, term) \<Rightarrow>
          if r \<le> 1
          then (let (s', rq) = fetchSellers (currentPage s) (lastFetchedSearch s)
                                 (Some 1) (Some term) (s\<lparr>delay := None\<rparr>)
                in (s', [rq]))
          else (s\<lparr>delay := Some (r - 1, term)\<rparr>, []))"

definition handleSearchChange :: "string \<Rightarrow> 'a sellers_state \<Rightarrow> 'a sellers_state" where
  "handleSearchChange v s = s\<lparr>search := v, error := None, isLoading := True\<rparr>"

definition sellers_handlePageChange ::
  "int \<Rightarrow> 'a sellers_state \<Rightarrow> 'a sellers_state \<times> sellers_fetch list" where
  "sellers_handlePageChange page s =
     (if page < 1 \<or> page > totalPages SELLERS_PAGE_SIZE (total_count s)
         \<or> page = currentPage s \<or> isLoading s
      then (s, [])
      else (let (s', rq) = fetchSellers (currentPage s) (lastFetchedSearch s) (Some page)
                             (Some (if isSearchDirty s then search s else lastFetchedSearch s)) s
            in (s', [rq])))"

definition sellers_handlePreviousPage :: "'a sellers_state \<Rightarrow> 'a sellers_state \<times> sellers_fetch list" where
  "sellers_handlePreviousPage s =
     (if \<not> canGoPrevious SELLERS_PAGE_SIZE (currentPage s) (total_count s) then (s, [])
      else sellers_handlePageChange (js_int_plus (currentPage s) (- 1)) s)"

definition sellers_handleNextPage :: "'a sellers_state \<Rightarrow> 'a sellers_state \<times> sellers_fetch list" where
  "sellers_handleNextPage s =
     (if \<not> canGoNext SELLERS_PAGE_SIZE (currentPage s) (total_count s) then (s, [])
      else sellers_handlePageChange (js_int_plus (currentPage s) 1) s)"

text \<open>The Enter key in the search box and the refresh button.\<close>

definition onSearchEnter :: "'a sellers_state \<Rightarrow> 'a sellers_state \<times> sellers_fetch list" where
  "onSearchEnter s =
     (let (s', rq) = fetchSellers (currentPage s) (lastFetchedSearch s) (Some 1)
                       (Some (search s)) s
      in (s', [rq]))"

definition onRefreshClick :: "'a sellers_state \<Rightarrow> 'a sellers_state \<times> sellers_fetch list" where
  "onRefreshClick s =
     (let (s', rq) = fetchSellers (currentPage s) (lastFetchedSearch s) (Some 1)
                       (Some (if isSearchDirty s then search s else lastFetchedSearch s)) s
      in (s', [rq]))"

definition sellers_openModal :: "string option \<Rightarrow> 'a sellers_state \<Rightarrow> 'a sellers_state" where
  "sellers_openModal sellerId s = s\<lparr>editingSellerId := sellerId, isModalOpen := True\<rparr>"

definition sellers_closeModal :: "'a sellers_state \<Rightarrow> 'a sellers_state" where
  "sellers_closeModal s = s\<lparr>isModalOpen := False\<rparr>"

text \<open>JavaScript truthiness of a \<open>string | null\<close>: neither null nor empty.\<close>

definition truthy :: "string option \<Rightarrow> bool" where
  "truthy v = (case v of None \<Rightarrow> False | Some t \<Rightarrow> t \<noteq> [])"

text \<open>
  \<open>handleSubmit\<close> awaits the create or update call. Its synchronous start clears
  the error. When the call fails only the \<open>catch\<close> block runs. When it succeeds the
  handler closes the modal and fetches again, reading \<open>currentPage\<close>,
  \<open>editingSellerId\<close>, \<open>search\<close> and \<open>lastFetchedSearch\<close> from the render
  \<open>c\<close> in which the handler was created.
\<close>

definition sellers_handleSubmit_start :: "'a sellers_state \<Rightarrow> 'a sellers_state" where
  "sellers_handleSubmit_start s = s\<lparr>error := None\<rparr>"

definition sellers_handleSubmit_failed :: "'a sellers_state \<Rightarrow> 'a sellers_state" where
  "sellers_handleSubmit_failed s = s\<lparr>error := Some ''Erro ao salvar vendedor.''\<rparr>"

definition sellers_handleSubmit_saved ::
  "'a sellers_state \<Rightarrow> 'a sellers_state \<Rightarrow> 'a sellers_state \<times> sellers_fetch list" where
  "sellers_handleSubmit_saved c s =
     (let (s', rq) = fetchSellers (currentPage c) (lastFetchedSearch c)
                       (Some (if truthy (editingSellerId c) then currentPage c else 1))
                       (Some (if isSearchDirty c then search c else lastFetchedSearch c))
                       (s\<lparr>isModalOpen := False\<rparr>)
      in (s', [rq]))"

definition requestDeleteSeller :: "'a \<Rightarrow> 'a sellers_state \<Rightarrow> 'a sellers_state" where
  "requestDeleteSeller seller s = s\<lparr>sellerPendingDeletion := Some seller\<rparr>"

text \<open>
  \<open>handleConfirmDeleteSeller\<close> returns at once when nothing is pending; otherwise
  it raises \<open>isDeleting\<close>, clears the error and awaits the delete call. A failed
  call runs \<open>catch\<close> and \<open>finally\<close>. A successful one clears the pending item and
  awaits a fetch; \<open>finally\<close> runs when that fetch has settled.
\<close>

definition handleConfirmDeleteSeller_start :: "'a sellers_state \<Rightarrow> 'a sellers_state" where
  "handleConfirmDeleteSeller_start s =
     (if sellerPendingDeletion s = None then s
      else s\<lparr>isDeleting := True, error := None\<rparr>)"

definition handleConfirmDeleteSeller_failed :: "'a sellers_state \<Rightarrow> 'a sellers_state" where
  "handleConfirmDeleteSeller_failed s =
     s\<lparr>error := Some ''Erro ao remover vendedor.'', isDeleting := False\<rparr>"

definition handleConfirmDeleteSeller_deleted ::
  "'a sellers_state \<Rightarrow> 'a sellers_state \<Rightarrow> 'a sellers_state \<times> sellers_fetch list" where
  "handleConfirmDeleteSeller_deleted c s =
     (let (s', rq) = fetchSellers (currentPage c) (lastFetchedSearch c)
                       (Some (currentPage c))
                       (Some (if isSearchDirty c then search c else lastFetchedSearch c))
                       (s\<lparr>sellerPendingDeletion := None\<rparr>)
      in (s', [rq]))"

definition handleConfirmDeleteSeller_finally :: "'a sellers_state \<Rightarrow> 'a sellers_state" where
  "handleConfirmDeleteSeller_finally s = s\<lparr>isDeleting := False\<rparr>"

definition handleCancelDeleteSeller :: "'a sellers_state \<Rightarrow> 'a sellers_state" where
  "handleCancelDeleteSeller s =
     (if isDeleting s then s else s\<lparr>sellerPendingDeletion := None\<rparr>)"

text \<open>
  The first effect of the page calls \<open>fetchSellers ()\<close> once after the first
  render; the ref \<open>hasFetchedInitial\<close> turns every later run of it into a no-op.
  \<open>sellers_mounted\<close> is the state after that first run together with the request
  it leaves in flight; the debounce effect of the first render returns at once, the
  search not being dirty.
\<close>

definition sellers_mounted :: "'a sellers_state \<times> sellers_fetch" where
  "sellers_mounted =
     fetchSellers (currentPage (sellers_initial :: 'a sellers_state))
       (lastFetchedSearch (sellers_initial :: 'a sellers_state)) None None sellers_initial"

subsection \<open>Events of the sellers page\<close>

text \<open>
  Everything that can happen to the mounted page: a user action, one unit of time,
  or the settling of a call that an earlier handler awaits. A settling event carries
  what the suspended handler captured: the invocation record of a fetch, or the
  render \<open>c\<close> whose closure the handler is. \<open>sellers_handle\<close> is the state change
  and the fetch requests the event issues; \<open>sellers_step\<close> adds the render that
  follows, that is the debounce effect. Every event is followed by its render before
  the next event, so a user action and a timer callback run in the closure of the
  state they act on.
\<close>

datatype 'a sellers_event =
    SearchChange string
  | Tick
  | PageChange int
  | PreviousPage
  | NextPage
  | SearchEnter
  | RefreshClick
  | FetchResolved sellers_fetch "'a list_response"
  | FetchRejected sellers_fetch
  | OpenModal "string option"
  | CloseModal
  | SubmitStart
  | SubmitFailed
  | SubmitSaved "'a sellers_state"
  | RequestDelete 'a
  | CancelDelete
  | ConfirmDeleteStart
  | ConfirmDeleteFailed
  | ConfirmDeleteDeleted "'a sellers_state"
  | ConfirmDeleteFinally

fun sellers_handle ::
  "'a sellers_event \<Rightarrow> 'a sellers_state \<Rightarrow> 'a sellers_state \<times> sellers_fetch list" where
  "sellers_handle (SearchChange v) s = (handleSearchChange v s, [])"
| "sellers_handle Tick s = timerTick s"
| "sellers_handle (PageChange n) s = sellers_handlePageChange n s"
| "sellers_handle PreviousPage s = sellers_handlePreviousPage s"
| "sellers_handle NextPage s = sellers_handleNextPage s"
| "sellers_handle SearchEnter s = onSearchEnter s"
| "sellers_handle RefreshClick s = onRefreshClick s"
| "sellers_handle (FetchResolved rq resp) s = (fetchSellers_resolved rq resp s, [])"
| "sellers_handle (FetchRejected rq) s = (fetchSellers_rejected rq s, [])"
| "sellers_handle (OpenModal i) s = (sellers_openModal i s, [])"
| "sellers_handle CloseModal s = (sellers_closeModal s, [])"
| "sellers_handle SubmitStart s = (sellers_handleSubmit_start s, [])"
| "sellers_handle SubmitFailed s = (sellers_handleSubmit_failed s, [])"
| "sellers_handle (SubmitSaved c) s = sellers_handleSubmit_saved c s"
| "sellers_handle (RequestDelete x) s = (requestDeleteSeller x s, [])"
| "sellers_handle CancelDelete s = (handleCancelDeleteSeller s, [])"
| "sellers_handle ConfirmDeleteStart s = (handleConfirmDeleteSeller_start s, [])"
| "sellers_handle ConfirmDeleteFailed s = (handleConfirmDeleteSeller_failed s, [])"
| "sellers_handle (ConfirmDeleteDeleted c) s = handleConfirmDeleteSeller_deleted c s"
| "sellers_handle ConfirmDeleteFinally s = (handleConfirmDeleteSeller_finally s, [])"

definition sellers_step ::
  "'a sellers_event \<Rightarrow> 'a sellers_state \<Rightarrow> 'a sellers_state \<times> sellers_fetch list" where
  "sellers_step e s = (let (s', rs) = sellers_handle e s in (debounceEffect s s', rs))"

fun sellers_run ::
  "'a sellers_event list \<Rightarrow> 'a sellers_state \<Rightarrow> 'a sellers_state \<times> sellers_fetch list" where
  "sellers_run [] s = (s, [])"
| "sellers_run (e # es) s =
     (let (s1, rs1) = sellers_step e s; (s2, rs2) = sellers_run es s1 in (s2, rs1 @ rs2))"

text \<open>The event settles the fetch with request number \<open>n\<close>.\<close>

fun settles :: "nat \<Rightarrow> 'a sellers_event \<Rightarrow> bool" where
  "settles n (FetchResolved rq resp) = (requestId rq = n)"
| "settles n (FetchRejected rq) = (requestId rq = n)"
| "settles n e = False"

text \<open>The event delivers the outcome of a fetch whose request number is not \<open>n\<close>.\<close>

fun superseded :: "nat \<Rightarrow> 'a sellers_event \<Rightarrow> bool" where
  "superseded n (FetchResolved rq resp) = (requestId rq \<noteq> n)"
| "superseded n (FetchRejected rq) = (requestId rq \<noteq> n)"
| "superseded n e = False"

text \<open>
  The handler behind the event ran in the closure of the current render, as far as
  the current page goes. A continuation resumed after an awaited create, update or
  delete call reads the page of the render in which it was started.
\<close>

fun closure_current :: "'a sellers_state \<Rightarrow> 'a sellers_event \<Rightarrow> bool" where
  "closure_current s (SubmitSaved c) = (currentPage c = currentPage s)"
| "closure_current s (ConfirmDeleteDeleted c) = (currentPage c = currentPage s)"
| "closure_current s e = True"

text \<open>
  A burst of typing: each entry is the text left in the search box by one change and
  the number of time units that pass before the next one. In \<open>within_window\<close>
  every change alters the text and is followed by less than the 300 units of the
  debounce delay.
\<close>

fun keystrokes :: "(string \<times> nat) list \<Rightarrow> 'a sellers_event list" where
  "keystrokes [] = []"
| "keystrokes ((v, d) # rest) = SearchChange v # replicate d Tick @ keystrokes rest"

fun within_window :: "string \<Rightarrow> (string \<times> nat) list \<Rightarrow> bool" where
  "within_window prev [] = True"
| "within_window prev ((v, d) # rest) = (v \<noteq> prev \<and> d < 300 \<and> within_window v rest)"

subsection \<open>Reachable configurations of the sellers page\<close>

text \<open>
  A configuration is the state together with the fetch requests that have been
  issued and have not settled yet, and the renders the page has gone through. An
  event can happen in a configuration when a fetch it settles is one of those in
  flight and its response is a page result of the server (a total that is not
  negative and, when the page is reported, a page from 1 on), and when the render
  whose closure a resumed handler is has occurred. \<open>sellers_trace\<close> plays a list
  of events from a configuration and is \<open>None\<close> when one of them cannot happen.
  \<open>sellers_start\<close> is the mounted page.
\<close>

fun sellers_admissible ::
  "sellers_fetch list \<Rightarrow> 'a sellers_state list \<Rightarrow> 'a sellers_event \<Rightarrow> bool" where
  "sellers_admissible out seen (FetchResolved rq resp) = (rq \<in> set out \<and> conforming resp)"
| "sellers_admissible out seen (FetchRejected rq) = (rq \<in> set out)"
| "sellers_admissible out seen (SubmitSaved c) = (c \<in> set seen)"
| "sellers_admissible out seen (ConfirmDeleteDeleted c) = (c \<in> set seen)"
| "sellers_admissible out seen e = True"

fun sellers_settled :: "'a sellers_event \<Rightarrow> sellers_fetch list \<Rightarrow> sellers_fetch list" where
  "sellers_settled (FetchResolved rq resp) out = remove1 rq out"
| "sellers_settled (FetchRejected rq) out = remove1 rq out"
| "sellers_settled e out = out"

type_synonym 'a sellers_config =
  "'a sellers_state \<times> sellers_fetch list \<times> 'a sellers_state list"

fun sellers_trace :: "'a sellers_event list \<Rightarrow> 'a sellers_config \<Rightarrow> 'a sellers_config option" where
  "sellers_trace [] cfg = Some cfg"
| "sellers_trace (e # es) (s, out, seen) =
     (if sellers_admissible out seen e
      then (let (s', rs) = sellers_step e s
            in sellers_trace es (s', sellers_settled e out @ rs, s' # seen))
      else None)"

definition sellers_start :: "'a sellers_config" where
  "sellers_start =
     (fst sellers_mounted, [snd (sellers_mounted :: 'a sellers_state \<times> sellers_fetch)],
      [fst sellers_mounted])"

text \<open>The fetch issued last is still in flight.\<close>

definition latest_in_flight :: "'a sellers_state \<Rightarrow> sellers_fetch list \<Rightarrow> bool" where
  "latest_in_flight s out \<longleftrightarrow> latestRequestRef s \<in> requestId ` set out"

section \<open>The appointments page\<close>

record 'a appointments_state = page_state +
  appointments :: "'a list"
  selectedStatus :: string
  editingAppointmentId :: "string option"
  appointmentPendingDeletion :: "'a option"
  isDeletingAppointment :: bool

record appointments_fetch = fetch_call +
  statusFilter :: string

definition appointments_initial :: "'a appointments_state" where
  "appointments_initial =
     \<lparr>total_count = 0, currentPage = 1, isLoading = True, error = None,
      isModalOpen = False,
      appointments = [], selectedStatus = '''', editingAppointmentId = None,
      appointmentPendingDeletion = None, isDeletingAppointment = False\<rparr>"

definition appointments_hasFilters :: "'a appointments_state \<Rightarrow> bool" where
  "appointments_hasFilters s \<longleftrightarrow> selectedStatus s \<noteq> ''''"

text \<open>The query parameters: limit, page, and the status only when it is not empty.\<close>

definition appointments_params :: "appointments_fetch \<Rightarrow> int \<times> int \<times> string option" where
  "appointments_params rq =
     (APPOINTMENTS_PAGE_SIZE, pageToFetch rq,
      if statusFilter rq = '''' then None else Some (statusFilter rq))"

text \<open>
  \<open>fetchAppointments\<close> up to its \<open>await\<close>; the callback is memoised on
  \<open>currentPage\<close> and \<open>selectedStatus\<close>, whose captured values are \<open>cp\<close> and
  \<open>sel\<close>. This page keeps no request counter.
\<close>

definition fetchAppointments ::
  "int \<Rightarrow> string \<Rightarrow> int option \<Rightarrow> string option \<Rightarrow> 'a appointments_state
     \<Rightarrow> 'a appointments_state \<times> appointments_fetch" where
  "fetchAppointments cp sel optPage optStatus s =
     (let page = (case optPage of Some p \<Rightarrow> p | None \<Rightarrow> cp);
          status = (case optStatus of Some t \<Rightarrow> t | None \<Rightarrow> sel);
          s1 = (if page \<noteq> cp then s\<lparr>currentPage := page\<rparr> else s);
          s2 = s1\<lparr>isLoading := True, error := None\<rparr>
      in (s2, \<lparr>pageToFetch = page, previousPage = cp, statusFilter = status\<rparr>))"

definition fetchAppointments_resolved ::
  "appointments_fetch \<Rightarrow> 'a list_response \<Rightarrow> 'a appointments_state
     \<Rightarrow> 'a appointments_state" where
  "fetchAppointments_resolved rq resp s =
     s\<lparr>appointments := resp_data resp,
       total_count := resp_total resp,
       currentPage := (case resp_page resp of Some p \<Rightarrow> p | None \<Rightarrow> pageToFetch rq),
       isLoading := False\<rparr>"

definition fetchAppointments_rejected ::
  "appointments_fetch \<Rightarrow> 'a appointments_state \<Rightarrow> 'a appointments_state" where
  "fetchAppointments_rejected rq s =
     s\<lparr>error := Some ''Nao foi possivel carregar as calls.'',
       currentPage := previousPage rq,
       isLoading := False\<rparr>"

definition appointments_mounted :: "'a appointments_state \<times> appointments_fetch" where
  "appointments_mounted =
     fetchAppointments (currentPage (appointments_initial :: 'a appointments_state))
       (selectedStatus (appointments_initial :: 'a appointments_state)) None None
       appointments_initial"

text \<open>The \<open>onChange\<close> handler of the status filter.\<close>

definition onStatusChange ::
  "string \<Rightarrow> 'a appointments_state \<Rightarrow> 'a appointments_state \<times> appointments_fetch" where
  "onStatusChange status s =
     fetchAppointments (currentPage s) (selectedStatus s) (Some 1) (Some status)
       (s\<lparr>selectedStatus := status\<rparr>)"

definition appointments_handlePageChange ::
  "int \<Rightarrow> 'a appointments_state \<Rightarrow> 'a appointments_state \<times> appointments_fetch list" where
  "appointments_handlePageChange page s =
     (if page < 1 \<or> page > totalPages APPOINTMENTS_PAGE_SIZE (total_count s)
         \<or> page = currentPage s \<or> isLoading s
      then (s, [])
      else (let (s', rq) = fetchAppointments (currentPage s) (selectedStatus s) (Some page) None s
            in (s', [rq])))"

definition appointments_handlePreviousPage ::
  "'a appointments_state \<Rightarrow> 'a appointments_state \<times> appointments_fetch list" where
  "appointments_handlePreviousPage s =
     (if \<not> canGoPrevious APPOINTMENTS_PAGE_SIZE (currentPage s) (total_count s) then (s, [])
      else appointments_handlePageChange (js_int_plus (currentPage s) (- 1)) s)"

definition appointments_handleNextPage ::
  "'a appointments_state \<Rightarrow> 'a appointments_state \<times> appointments_fetch list" where
  "appointments_handleNextPage s =
     (if \<not> canGoNext APPOINTMENTS_PAGE_SIZE (currentPage s) (total_count s) then (s, [])
      else appointments_handlePageChange (js_int_plus (currentPage s) 1) s)"

text \<open>
  \<open>handleSubmit\<close> of this page does nothing to the state before it awaits the
  create or update call.
\<close>

definition appointments_handleSubmit_failed :: "'a appointments_state \<Rightarrow> 'a appointments_state" where
  "appointments_handleSubmit_failed s = s\<lparr>error := Some ''Erro ao salvar call.''\<rparr>"

definition appointments_handleSubmit_saved ::
  "'a appointments_state \<Rightarrow> 'a appointments_state
     \<Rightarrow> 'a appointments_state \<times> appointments_fetch" where
  "appointments_handleSubmit_saved c s =
     fetchAppointments (currentPage c) (selectedStatus c)
       (Some (currentPage c)) (Some (selectedStatus c)) (s\<lparr>isModalOpen := False\<rparr>)"

definition requestDeleteAppointment :: "'a \<Rightarrow> 'a appointments_state \<Rightarrow> 'a appointments_state" where
  "requestDeleteAppointment appointment s = s\<lparr>appointmentPendingDeletion := Some appointment\<rparr>"

definition handleConfirmDeleteAppointment_start ::
  "'a appointments_state \<Rightarrow> 'a appointments_state" where
  "handleConfirmDeleteAppointment_start s =
     (if appointmentPendingDeletion s = None then s
      else s\<lparr>isDeletingAppointment := True\<rparr>)"

definition handleConfirmDeleteAppointment_failed ::
  "'a appointments_state \<Rightarrow> 'a appointments_state" where
  "handleConfirmDeleteAppointment_failed s =
     s\<lparr>error := Some ''Erro ao remover call.'', isDeletingAppointment := False\<rparr>"

definition handleConfirmDeleteAppointment_deleted ::
  "'a appointments_state \<Rightarrow> 'a appointments_state
     \<Rightarrow> 'a appointments_state \<times> appointments_fetch" where
  "handleConfirmDeleteAppointment_deleted c s =
     fetchAppointments (currentPage c) (selectedStatus c)
       (Some (currentPage c)) (Some (selectedStatus c))
       (s\<lparr>appointmentPendingDeletion := None\<rparr>)"

definition handleConfirmDeleteAppointment_finally ::
  "'a appointments_state \<Rightarrow> 'a appointments_state" where
  "handleConfirmDeleteAppointment_finally s = s\<lparr>isDeletingAppointment := False\<rparr>"

definition handleCancelDeleteAppointment :: "'a appointments_state \<Rightarrow> 'a appointments_state" where
  "handleCancelDeleteAppointment s =
     (if isDeletingAppointment s then s else s\<lparr>appointmentPendingDeletion := None\<rparr>)"

definition appointments_openModal ::
  "string option \<Rightarrow> 'a appointments_state \<Rightarrow> 'a appointments_state" where
  "appointments_openModal appointmentId s =
     s\<lparr>editingAppointmentId := appointmentId, isModalOpen := True\<rparr>"

definition appointments_closeModal :: "'a appointments_state \<Rightarrow> 'a appointments_state" where
  "appointments_closeModal s = s\<lparr>isModalOpen := False\<rparr>"

subsection \<open>Events of the appointments page\<close>

text \<open>
  The events of this page, as on the sellers page: user actions and the settling of
  awaited calls, the latter carrying the invocation record of the fetch or the
  render \<open>c\<close> whose closure the resumed handler is. The page has no timer.
\<close>

datatype 'a appointments_event =
    StatusChange string
  | GoToPage int
  | GoPrevious
  | GoNext
  | Loaded appointments_fetch "'a list_response"
  | LoadFailed appointments_fetch
  | ModalOpened "string option"
  | ModalClosed
  | SaveFailed
  | Saved "'a appointments_state"
  | DeleteRequested 'a
  | DeleteCancelled
  | DeleteConfirmed
  | DeleteFailed
  | Deleted "'a appointments_state"
  | DeleteFinished

fun appointments_step ::
  "'a appointments_event \<Rightarrow> 'a appointments_state
     \<Rightarrow> 'a appointments_state \<times> appointments_fetch list" where
  "appointments_step (StatusChange status) s = (let (s', rq) = onStatusChange status s in (s', [rq]))"
| "appointments_step (GoToPage n) s = appointments_handlePageChange n s"
| "appointments_step GoPrevious s = appointments_handlePreviousPage s"
| "appointments_step GoNext s = appointments_handleNextPage s"
| "appointments_step (Loaded rq resp) s = (fetchAppointments_resolved rq resp s, [])"
| "appointments_step (LoadFailed rq) s = (fetchAppointments_rejected rq s, [])"
| "appointments_step (ModalOpened i) s = (appointments_openModal i s, [])"
| "appointments_step ModalClosed s = (appointments_closeModal s, [])"
| "appointments_step SaveFailed s = (appointments_handleSubmit_failed s, [])"
| "appointments_step (Saved c) s = (let (s', rq) = appointments_handleSubmit_saved c s in (s', [rq]))"
| "appointments_step (DeleteRequested x) s = (requestDeleteAppointment x s, [])"
| "appointments_step DeleteCancelled s = (handleCancelDeleteAppointment s, [])"
| "appointments_step DeleteConfirmed s = (handleConfirmDeleteAppointment_start s, [])"
| "appointments_step DeleteFailed s = (handleConfirmDeleteAppointment_failed s, [])"
| "appointments_step (Deleted c) s =
     (let (s', rq) = handleConfirmDeleteAppointment_deleted c s in (s', [rq]))"
| "appointments_step DeleteFinished s = (handleConfirmDeleteAppointment_finally s, [])"

fun appointments_run ::
  "'a appointments_event list \<Rightarrow> 'a appointments_state
     \<Rightarrow> 'a appointments_state \<times> appointments_fetch list" where
  "appointments_run [] s = (s, [])"
| "appointments_run (e # es) s =
     (let (s1, rs1) = appointments_step e s; (s2, rs2) = appointments_run es s1
      in (s2, rs1 @ rs2))"

subsection \<open>Reachable configurations of the appointments page\<close>

text \<open>
  A configuration of this page has one more component: \<open>fresh\<close> tells that no
  fetch has settled since the last one was issued, so that the fetch issued last is
  in flight and the page has heard of no outcome since it began.
\<close>

fun appointments_admissible ::
  "appointments_fetch list \<Rightarrow> 'a appointments_state list \<Rightarrow> 'a appointments_event \<Rightarrow> bool" where
  "appointments_admissible out seen (Loaded rq resp) = (rq \<in> set out \<and> conforming resp)"
| "appointments_admissible out seen (LoadFailed rq) = (rq \<in> set out)"
| "appointments_admissible out seen (Saved c) = (c \<in> set seen)"
| "appointments_admissible out seen (Deleted c) = (c \<in> set seen)"
| "appointments_admissible out seen e = True"

fun appointments_settled ::
  "'a appointments_event \<Rightarrow> appointments_fetch list \<Rightarrow> appointments_fetch list" where
  "appointments_settled (Loaded rq resp) out = remove1 rq out"
| "appointments_settled (LoadFailed rq) out = remove1 rq out"
| "appointments_settled e out = out"

fun settling :: "'a appointments_event \<Rightarrow> bool" where
  "settling (Loaded rq resp) = True"
| "settling (LoadFailed rq) = True"
| "settling e = False"

type_synonym 'a appointments_config =
  "'a appointments_state \<times> appointments_fetch list \<times> bool \<times> 'a appointments_state list"

fun appointments_trace ::
  "'a appointments_event list \<Rightarrow> 'a appointments_config \<Rightarrow> 'a appointments_config option" where
  "appointments_trace [] cfg = Some cfg"
| "appointments_trace (e # es) (s, out, fresh, seen) =
     (if appointments_admissible out seen e
      then (let (s', rs) = appointments_step e s
            in appointments_trace es
                 (s', appointments_settled e out @ rs,
                  rs \<noteq> [] \<or> (fresh \<and> \<not> settling e), s' # seen))
      else None)"

definition appointments_start :: "'a appointments_config" where
  "appointments_start =
     (fst appointments_mounted,
      [snd (appointments_mounted :: 'a appointments_state \<times> appointments_fetch)],
      True, [fst appointments_mounted])"

section \<open>Rounding to binary64\<close>

text \<open>
  The rounded value is within half a unit in the last place of the exact one, whole
  numbers up to \<open>2 ^ 53\<close> in magnitude are not changed, and for a quotient of
  whole numbers with a dividend below \<open>2 ^ 53\<close> the rounding does not move the
  value across a whole number, so that its ceiling is the ceiling of the exact
  quotient.
\<close>

lemma round_even_error: "\<bar>of_int (round_even y) - y\<bar> \<le> 1 / 2"
proof -
  have "of_int \<lfloor>y\<rfloor> \<le> y" "y < of_int \<lfloor>y\<rfloor> + 1"
    by linarith+
  then show ?thesis
    by (auto simp: round_even_def Let_def)
qed

lemma round_even_of_int [simp]: "round_even (of_int m) = m"
  by (simp add: round_even_def)

lemma exponent_lower:
  assumes "x \<noteq> 0"
  shows "2 powi exponent x \<le> \<bar>x\<bar>"
proof (cases "1 \<le> \<bar>x\<bar>")
  case True
  let ?f = "\<lfloor>\<bar>x\<bar>\<rfloor>"
  from True have f: "0 < ?f" by linarith
  from bitlen_bounds [OF f] have low: "2 ^ nat (bitlen ?f - 1) \<le> ?f" by simp
  have pos: "0 \<le> bitlen ?f - 1"
    using f by (simp add: bitlen_alt_def)
  have "(2::rat) powi (bitlen ?f - 1) = 2 ^ nat (bitlen ?f - 1)"
    using pos by (simp add: power_int_nonneg_exp)
  also have "\<dots> = of_int (2 ^ nat (bitlen ?f - 1))" by simp
  also have "\<dots> \<le> of_int ?f" using low by (simp only: of_int_le_iff)
  also have "\<dots> \<le> \<bar>x\<bar>" by linarith
  finally show ?thesis using True by (simp add: exponent_def)
next
  case False
  let ?y = "1 / \<bar>x\<bar>"
  let ?c = "\<lceil>?y\<rceil>"
  from False assms have x: "0 < \<bar>x\<bar>" "\<bar>x\<bar> < 1" by simp_all
  then have y: "1 < ?y" by simp
  then have c: "0 < ?c - 1" by linarith
  from bitlen_bounds [OF c] have up: "?c - 1 < 2 ^ nat (bitlen (?c - 1))" by simp
  then have "?c \<le> 2 ^ nat (bitlen (?c - 1))" by linarith
  then have "of_int ?c \<le> (of_int (2 ^ nat (bitlen (?c - 1))) :: rat)"
    by (simp only: of_int_le_iff)
  then have "of_int ?c \<le> (2 ^ nat (bitlen (?c - 1)) :: rat)"
    by (simp only: of_int_power of_int_numeral)
  moreover have "?y \<le> of_int ?c" by (rule le_of_int_ceiling)
  ultimately have "?y \<le> 2 ^ nat (bitlen (?c - 1))" by (rule order_trans [rotated])
  then have "1 / 2 ^ nat (bitlen (?c - 1)) \<le> \<bar>x\<bar>"
    using x(1) by (simp add: field_simps)
  moreover have "(2::rat) powi (- bitlen (?c - 1)) = 1 / 2 ^ nat (bitlen (?c - 1))"
    using bitlen_nonneg [of "?c - 1"]
    by (simp add: power_int_minus_divide power_int_nonneg_exp)
  ultimately show ?thesis using False by (simp add: exponent_def)
qed

lemma exponent_upper:
  assumes "x \<noteq> 0"
  shows "\<bar>x\<bar> < 2 powi (exponent x + 1)"
proof (cases "1 \<le> \<bar>x\<bar>")
  case True
  let ?f = "\<lfloor>\<bar>x\<bar>\<rfloor>"
  from True have f: "0 < ?f" by linarith
  from bitlen_bounds [OF f] have "?f < 2 ^ nat (bitlen ?f)" by simp
  then have "?f + 1 \<le> 2 ^ nat (bitlen ?f)" by linarith
  then have "of_int (?f + 1) \<le> (of_int (2 ^ nat (bitlen ?f)) :: rat)"
    by (simp only: of_int_le_iff)
  moreover have "\<bar>x\<bar> < of_int (?f + 1)" by linarith
  ultimately have "\<bar>x\<bar> < 2 ^ nat (bitlen ?f)" by simp
  moreover have "(2::rat) powi (bitlen ?f) = 2 ^ nat (bitlen ?f)"
    using bitlen_nonneg [of ?f] by (simp add: power_int_nonneg_exp)
  ultimately show ?thesis using True by (simp add: exponent_def)
next
  case False
  let ?y = "1 / \<bar>x\<bar>"
  let ?c = "\<lceil>?y\<rceil>"
  let ?b = "bitlen (?c - 1)"
  from False assms have x: "0 < \<bar>x\<bar>" "\<bar>x\<bar> < 1" by simp_all
  then have y: "1 < ?y" by simp
  then have c: "0 < ?c - 1" by linarith
  from bitlen_bounds [OF c] have low: "2 ^ nat (?b - 1) \<le> ?c - 1" by simp
  have b: "1 \<le> ?b" using c by (simp add: bitlen_alt_def)
  have "(of_int (2 ^ nat (?b - 1)) :: rat) \<le> of_int (?c - 1)"
    using low by (simp only: of_int_le_iff)
  moreover have "of_int (?c - 1) < ?y" by linarith
  ultimately have "2 ^ nat (?b - 1) < ?y" by simp
  then have "\<bar>x\<bar> < 1 / 2 ^ nat (?b - 1)"
    using x(1) by (simp add: field_simps)
  moreover have "(2::rat) powi (- ?b + 1) = 1 / 2 ^ nat (?b - 1)"
  proof -
    have "- ?b + 1 = - (?b - 1)" by simp
    then have "(2::rat) powi (- ?b + 1) = 1 / 2 powi (?b - 1)"
      by (simp only: power_int_minus_divide)
    also have "\<dots> = 1 / 2 ^ nat (?b - 1)"
      using b by (simp add: power_int_nonneg_exp)
    finally show ?thesis .
  qed
  ultimately show ?thesis using False by (simp add: exponent_def)
qed

lemma to_double_error:
  assumes "x \<noteq> 0"
  shows "\<bar>to_double x - x\<bar> \<le> 2 powi (max (exponent x) (- 1022) - 52) / 2"
proof -
  let ?u = "(2::rat) powi (max (exponent x) (- 1022) - 52)"
  have u: "0 < ?u" by simp
  have "\<bar>of_int (round_even (x / ?u)) - x / ?u\<bar> * ?u \<le> 1 / 2 * ?u"
    using round_even_error [of "x / ?u"] u by (intro mult_right_mono) simp_all
  moreover have "\<bar>of_int (round_even (x / ?u)) - x / ?u\<bar> * ?u
      = \<bar>of_int (round_even (x / ?u)) * ?u - x\<bar>"
  proof -
    have "\<bar>of_int (round_even (x / ?u)) - x / ?u\<bar> * ?u
        = \<bar>(of_int (round_even (x / ?u)) - x / ?u) * ?u\<bar>"
      using u by (simp add: abs_mult)
    also have "(of_int (round_even (x / ?u)) - x / ?u) * ?u
        = of_int (round_even (x / ?u)) * ?u - x"
      using u by (simp add: algebra_simps)
    finally show ?thesis .
  qed
  ultimately show ?thesis
    using assms by (simp add: to_double_def Let_def)
qed


lemma exponent_le:
  assumes "x \<noteq> 0" and "\<bar>x\<bar> \<le> 2 powi k"
  shows "exponent x \<le> k"
proof (rule ccontr)
  assume "\<not> exponent x \<le> k"
  then have "(2::rat) powi k < 2 powi exponent x"
    by (intro power_int_strict_increasing) simp_all
  with exponent_lower [OF assms(1)] assms(2) show False
    by linarith
qed

lemma exponent_ge:
  assumes "x \<noteq> 0" and "2 powi k \<le> \<bar>x\<bar>"
  shows "k \<le> exponent x"
proof (rule ccontr)
  assume "\<not> k \<le> exponent x"
  then have "(2::rat) powi (exponent x + 1) \<le> 2 powi k"
    by (intro power_int_increasing) simp_all
  with exponent_upper [OF assms(1)] assms(2) show False
    by linarith
qed

lemma to_double_grid:
  assumes "x / 2 powi (max (exponent x) (- 1022) - 52) = of_int k"
  shows "to_double x = x"
proof (cases "x = 0")
  case True
  then show ?thesis by (simp add: to_double_def)
next
  case False
  let ?u = "(2::rat) powi (max (exponent x) (- 1022) - 52)"
  have u: "?u \<noteq> 0" by simp
  have "to_double x = of_int (round_even (x / ?u)) * ?u"
    using False by (simp add: to_double_def Let_def)
  also have "\<dots> = of_int k * ?u"
    by (simp only: assms round_even_of_int)
  also have "\<dots> = x / ?u * ?u"
    by (simp only: assms)
  also have "\<dots> = x"
    using u by simp
  finally show ?thesis .
qed

lemma to_double_of_int:
  assumes "\<bar>m\<bar> \<le> 2 ^ 53"
  shows "to_double (of_int m) = of_int m"
proof (cases "m = 0")
  case True
  then show ?thesis by (simp add: to_double_def)
next
  case False
  let ?x = "of_int m :: rat"
  let ?e = "exponent ?x"
  have x: "?x \<noteq> 0" using False by simp
  have "1 \<le> \<bar>m\<bar>" using False by simp
  then have "(1::rat) \<le> \<bar>?x\<bar>"
    by (metis of_int_1 of_int_abs of_int_le_iff)
  then have "(2::rat) powi 0 \<le> \<bar>?x\<bar>" by simp
  from exponent_ge [OF x this] have e0: "0 \<le> ?e" .
  have "\<bar>?x\<bar> \<le> 2 ^ 53"
  proof -
    have "(of_int \<bar>m\<bar> :: rat) \<le> of_int (2 ^ 53)"
      using assms by (simp only: of_int_le_iff)
    then show ?thesis by simp
  qed
  then have top: "\<bar>?x\<bar> \<le> 2 powi 53" by simp
  from exponent_le [OF x top] have e53: "?e \<le> 53" .
  have u: "max ?e (- 1022) - 52 = ?e - 52" using e0 by simp
  show ?thesis
  proof (cases "?e \<le> 52")
    case True
    have "(2::rat) powi (?e - 52) = 1 / 2 powi (52 - ?e)"
      using power_int_minus_divide [of "2::rat" "52 - ?e"] by simp
    also have "\<dots> = 1 / 2 ^ nat (52 - ?e)"
      using True by (simp add: power_int_nonneg_exp)
    finally have "?x / 2 powi (?e - 52) = of_int (m * 2 ^ nat (52 - ?e))"
      by simp
    then show ?thesis
      by (intro to_double_grid [of _ "m * 2 ^ nat (52 - ?e)"]) (simp only: u)
  next
    case False
    with e53 have e: "?e = 53" by simp
    from exponent_lower [OF x] have "(2::rat) ^ 53 \<le> \<bar>?x\<bar>"
      by (simp add: e)
    with \<open>\<bar>?x\<bar> \<le> 2 ^ 53\<close> have "\<bar>?x\<bar> = 2 ^ 53" by linarith
    then have "\<bar>?x\<bar> = of_int (2 ^ 53)" by simp
    then have "\<bar>m\<bar> = 2 ^ 53"
      by (metis of_int_abs of_int_eq_iff)
    then have "m = 2 ^ 53 \<or> m = - (2 ^ 53)" by linarith
    then have "?x / 2 powi (?e - 52) = of_int (m div 2)"
      by (auto simp: e)
    then show ?thesis
      by (intro to_double_grid [of _ "m div 2"]) (simp only: u)
  qed
qed



lemma quotient_split:
  assumes "0 < d"
  shows "(of_int n / of_int d :: rat) = of_int (n div d) + of_int (n mod d) / of_int d"
proof -
  have dpos: "(0::rat) < of_int d" using assms by simp
  have "(of_int n :: rat) = of_int (d * (n div d) + n mod d)" by simp
  also have "\<dots> = of_int d * of_int (n div d) + of_int (n mod d)"
    by (simp only: of_int_add of_int_mult)
  finally have "(of_int n :: rat) = of_int d * of_int (n div d) + of_int (n mod d)" .
  then have "(of_int n / of_int d :: rat)
      = (of_int d * of_int (n div d) + of_int (n mod d)) / of_int d"
    by (simp only:)
  also have "\<dots> = of_int (n div d) + of_int (n mod d) / of_int d"
    using dpos by (simp add: add_divide_distrib)
  finally show ?thesis .
qed

lemma ceiling_to_double_quotient:
  assumes n: "0 \<le> n" "n < 2 ^ 53" and d: "0 < d" "d \<le> 2 ^ 53"
  shows "\<lceil>to_double (of_int n / of_int d)\<rceil> = \<lceil>(of_int n / of_int d :: rat)\<rceil>"
proof (cases "n mod d = 0")
  case True
  have m0: "0 \<le> n div d" using n(1) d(1) by (simp add: pos_imp_zdiv_nonneg_iff)
  have "n div d \<le> n"
    using n(1) by (cases "n = 0") (simp_all add: int_div_le_self)
  with m0 n(2) have "\<bar>n div d\<bar> \<le> 2 ^ 53" by simp
  moreover have "(of_int n / of_int d :: rat) = of_int (n div d)"
    using quotient_split [OF d(1), of n] True by simp
  ultimately show ?thesis
    by (simp add: to_double_of_int)
next
  case False
  let ?x = "of_int n / of_int d :: rat"
  let ?m = "n div d"
  let ?r = "n mod d"
  let ?u = "(2::rat) powi (max (exponent ?x) (- 1022) - 52)"
  have r: "1 \<le> ?r" "?r + 1 \<le> d"
    using False d(1) pos_mod_sign [of d n] pos_mod_bound [of d n] by linarith+
  have dpos: "(0::rat) < of_int d" using d(1) by simp
  note split = quotient_split [OF d(1), of n]
  have "(of_int 1 :: rat) \<le> of_int ?r" using r(1) by (simp only: of_int_le_iff)
  then have gap1: "1 / of_int d \<le> (of_int ?r / of_int d :: rat)"
    using dpos by (simp add: divide_right_mono)
  have "(of_int (?r + 1) :: rat) \<le> of_int d" using r(2) by (simp only: of_int_le_iff)
  then have "(of_int ?r :: rat) \<le> of_int d - 1" by simp
  then have "(of_int ?r / of_int d :: rat) \<le> (of_int d - 1) / of_int d"
    using dpos by (simp add: divide_right_mono)
  also have "\<dots> = 1 - 1 / of_int d"
    using dpos by (simp add: field_simps)
  finally have gap2: "(of_int ?r / of_int d :: rat) \<le> 1 - 1 / of_int d" .
  from False n have npos: "0 < n" by (cases "n = 0") simp_all
  then have x: "?x \<noteq> 0" using d(1) by simp
  have xpos: "0 < ?x" using npos dpos by simp
  have small: "?u / 2 < 1 / of_int d"
  proof (cases "- 1022 \<le> exponent ?x")
    case True
    then have "?u = 2 powi exponent ?x / 2 ^ 52"
      by (simp add: max_def power_int_diff)
    also have "\<dots> \<le> \<bar>?x\<bar> / 2 ^ 52"
      using exponent_lower [OF x] by (simp add: divide_right_mono)
    also have "\<dots> = of_int n / of_int d / 2 ^ 52"
      using xpos by (simp only: abs_of_pos)
    also have "\<dots> < 2 ^ 53 / of_int d / 2 ^ 52"
    proof -
      have "(of_int n :: rat) < of_int (2 ^ 53)"
        using n(2) by (simp only: of_int_less_iff)
      then have "(of_int n :: rat) < 2 ^ 53" by simp
      then have "(of_int n / of_int d :: rat) < 2 ^ 53 / of_int d"
        using dpos by (simp add: divide_strict_right_mono)
      then show ?thesis by (simp add: divide_strict_right_mono)
    qed
    also have "\<dots> = 2 / of_int d"
      by simp
    finally show ?thesis by simp
  next
    case False
    then have "?u = 2 powi (- 1074)" by (simp add: max_def)
    moreover have "(of_int d :: rat) \<le> of_int (2 ^ 53)"
      using d(2) by (simp only: of_int_le_iff)
    then have "(of_int d :: rat) \<le> 2 ^ 53" by simp
    then have "(1::rat) / 2 ^ 53 \<le> 1 / of_int d"
      using dpos by (simp add: frac_le)
    moreover have "(2::rat) powi (- 1074) / 2 < 1 / 2 ^ 53"
      by (simp add: power_int_minus_divide)
    ultimately show ?thesis by simp
  qed
  from to_double_error [OF x] small
  have near: "\<bar>to_double ?x - ?x\<bar> < 1 / of_int d" by linarith
  have below: "of_int ?m < to_double ?x"
    using near gap1 split by linarith
  have above: "to_double ?x < of_int ?m + 1"
    using near gap2 split by linarith
  have "\<lceil>to_double ?x\<rceil> = ?m + 1"
    using below above by (intro ceiling_unique) simp_all
  moreover have "\<lceil>?x\<rceil> = ?m + 1"
  proof -
    have tiny: "0 < 1 / (of_int d :: rat)" using dpos by simp
    have "of_int ?m < ?x"
      using tiny gap1 split by linarith
    moreover have "?x \<le> of_int ?m + 1"
      using tiny gap2 split by linarith
    ultimately show ?thesis by (intro ceiling_unique) simp_all
  qed
  ultimately show ?thesis by simp
qed

lemma to_double_near_int:
  assumes "\<bar>m\<bar> < 2 ^ 54"
  shows "\<bar>to_double (of_int m) - of_int m\<bar> \<le> 1"
proof (cases "m = 0")
  case True
  then show ?thesis by (simp add: to_double_def)
next
  case False
  let ?x = "of_int m :: rat"
  let ?e = "exponent ?x"
  have x: "?x \<noteq> 0" using False by simp
  have "1 \<le> \<bar>m\<bar>" using False by simp
  then have "(1::rat) \<le> \<bar>?x\<bar>"
    by (metis of_int_1 of_int_abs of_int_le_iff)
  then have "(2::rat) powi 0 \<le> \<bar>?x\<bar>" by simp
  from exponent_ge [OF x this] have e0: "0 \<le> ?e" .
  have "(of_int \<bar>m\<bar> :: rat) < of_int (2 ^ 54)"
    using assms by (simp only: of_int_less_iff)
  then have top: "\<bar>?x\<bar> < 2 powi 54" by simp
  have e53: "?e \<le> 53"
  proof (rule ccontr)
    assume "\<not> ?e \<le> 53"
    then have "(2::rat) powi 54 \<le> 2 powi ?e"
      by (intro power_int_increasing) simp_all
    with exponent_lower [OF x] top show False by linarith
  qed
  have "(2::rat) powi (max ?e (- 1022) - 52) \<le> 2 powi 1"
    using e0 e53 by (intro power_int_increasing) simp_all
  with to_double_error [OF x] show ?thesis by simp
qed

lemma MAX_VALUE_large: "2 ^ 54 + 1 \<le> MAX_VALUE"
  by (simp add: MAX_VALUE_def)

lemma js_round_near_int:
  assumes "\<bar>m\<bar> < 2 ^ 54"
  shows "\<exists>r. js_round (of_int m) = Finite r \<and> \<bar>r - of_int m\<bar> \<le> 1"
proof -
  let ?r = "to_double (of_int m)"
  have near: "\<bar>?r - of_int m\<bar> \<le> 1" by (rule to_double_near_int [OF assms])
  have "(of_int \<bar>m\<bar> :: rat) < of_int (2 ^ 54)"
    using assms by (simp only: of_int_less_iff)
  then have "\<bar>of_int m :: rat\<bar> < 2 ^ 54" by simp
  with near have "\<bar>?r\<bar> < 2 ^ 54 + 1" by linarith
  with MAX_VALUE_large have "\<not> MAX_VALUE < ?r" "\<not> ?r < - MAX_VALUE" by linarith+
  then have "js_round (of_int m) = Finite ?r"
    by (simp add: js_round_def Let_def)
  with near show ?thesis by blast
qed

lemma js_round_of_int:
  assumes "\<bar>m\<bar> \<le> 2 ^ 53"
  shows "js_round (of_int m) = Finite (of_int m)"
proof -
  have eq: "to_double (of_int m) = of_int m" by (rule to_double_of_int [OF assms])
  have "(of_int \<bar>m\<bar> :: rat) \<le> of_int (2 ^ 53)"
    using assms by (simp only: of_int_le_iff)
  then have "\<bar>of_int m :: rat\<bar> \<le> 2 ^ 53" by simp
  moreover have "(2::rat) ^ 53 \<le> 2 ^ 54" by simp
  ultimately have "\<not> MAX_VALUE < of_int m" "\<not> of_int m < - MAX_VALUE"
    using MAX_VALUE_large by linarith+
  then show ?thesis
    by (simp add: js_round_def Let_def eq)
qed

lemma MAX_VALUE_huge: "2 ^ 64 \<le> MAX_VALUE"
  by (simp add: MAX_VALUE_def)

lemma js_round_below:
  assumes "\<bar>to_double x\<bar> \<le> 2 ^ 64"
  shows "js_round x = Finite (to_double x)"
proof -
  from assms MAX_VALUE_huge
  have "\<not> MAX_VALUE < to_double x" "\<not> to_double x < - MAX_VALUE" by linarith+
  then show ?thesis by (simp add: js_round_def Let_def)
qed

lemma js_int_plus_exact:
  assumes "\<bar>a + b\<bar> \<le> 2 ^ 53"
  shows "js_int_plus a b = a + b"
proof -
  have "to_double (of_int a + of_int b) = of_int (a + b)"
    using to_double_of_int [OF assms] by simp
  then show ?thesis by (simp add: js_int_plus_def)
qed

section \<open>Properties of the pagination arithmetic\<close>

lemma ceiling_quotient_upper:
  assumes "0 < ps"
  shows "tot \<le> \<lceil>(of_int tot / of_int ps :: rat)\<rceil> * ps"
proof -
  have ps': "(0::rat) < of_int ps" using assms by simp
  have "(of_int tot / of_int ps :: rat) \<le> of_int \<lceil>(of_int tot / of_int ps :: rat)\<rceil>"
    by (rule le_of_int_ceiling)
  then have "(of_int tot :: rat) \<le> of_int \<lceil>(of_int tot / of_int ps :: rat)\<rceil> * of_int ps"
    using ps' by (simp only: pos_divide_le_eq)
  then have "(of_int tot :: rat) \<le> of_int (\<lceil>(of_int tot / of_int ps :: rat)\<rceil> * ps)"
    by simp
  then show ?thesis by (simp only: of_int_le_iff)
qed

lemma ceiling_quotient_lower:
  assumes "0 < ps"
  shows "(\<lceil>(of_int tot / of_int ps :: rat)\<rceil> - 1) * ps < tot"
proof -
  have "of_int \<lceil>(of_int tot / of_int ps :: rat)\<rceil> - 1 < (of_int tot / of_int ps :: rat)"
    by linarith
  with assms have "(of_int \<lceil>(of_int tot / of_int ps :: rat)\<rceil> - 1) * of_int ps < (of_int tot :: rat)"
    by (simp add: pos_less_divide_eq)
  then have "(of_int ((\<lceil>(of_int tot / of_int ps :: rat)\<rceil> - 1) * ps) :: rat) < of_int tot"
    by simp
  then show ?thesis by (simp only: of_int_less_iff)
qed

lemma ceiling_quotient_pos:
  assumes "0 < ps" "0 < tot"
  shows "1 \<le> \<lceil>(of_int tot / of_int ps :: rat)\<rceil>"
proof -
  from assms have "0 < (of_int tot / of_int ps :: rat)" by simp
  then show ?thesis by linarith
qed

lemma totalPages_ge_1: "1 \<le> totalPages ps tot"
  by (simp add: totalPages_def)

text \<open>
  For a total below \<open>2 ^ 53\<close> the page count the source computes is the one of exact
  arithmetic.
\<close>

lemma totalPages_safe:
  assumes "0 \<le> tot" "tot < 2 ^ 53" "0 < ps" "ps \<le> 2 ^ 53"
  shows "totalPages ps tot = max 1 \<lceil>(of_int tot / of_int ps :: rat)\<rceil>"
  by (simp only: totalPages_def ceiling_to_double_quotient [OF assms])

lemma totalPages_covers:
  assumes "0 \<le> tot" "tot < 2 ^ 53" "0 < ps" "ps \<le> 2 ^ 53"
  shows "tot \<le> totalPages ps tot * ps"
proof -
  have "\<lceil>(of_int tot / of_int ps :: rat)\<rceil> * ps \<le> totalPages ps tot * ps"
    using assms(3) by (simp add: totalPages_safe [OF assms])
  with ceiling_quotient_upper [OF assms(3), of tot] show ?thesis by linarith
qed

lemma totalPages_tight:
  assumes "0 < tot" "tot < 2 ^ 53" "0 < ps" "ps \<le> 2 ^ 53"
  shows "(totalPages ps tot - 1) * ps < tot"
proof -
  from assms(1) have "0 \<le> tot" by simp
  from totalPages_safe [OF this assms(2-4)] show ?thesis
    using ceiling_quotient_lower [OF assms(3), of tot] ceiling_quotient_pos [OF assms(3,1)]
    by (simp add: max_def)
qed

text \<open>No smaller number of pages, at least one, holds all the items.\<close>

lemma totalPages_least:
  assumes tot: "0 \<le> tot" "tot < 2 ^ 53" and ps: "0 < ps" "ps \<le> 2 ^ 53"
    and q: "1 \<le> q" and fits: "tot \<le> q * ps"
  shows "totalPages ps tot \<le> q"
proof (cases "0 < tot")
  case True
  have "(totalPages ps tot - 1) * ps < q * ps"
    using totalPages_tight [OF True tot(2) ps] fits by linarith
  then have "totalPages ps tot - 1 < q"
    using ps(1) by (simp add: mult_less_cancel_right)
  then show ?thesis by simp
next
  case False
  with tot(1) have "tot = 0" by simp
  then have "totalPages ps tot = 1"
    by (simp add: totalPages_def to_double_def)
  with q show ?thesis by simp
qed

lemma effectivePage_upper: "effectivePage ps cp tot \<le> totalPages ps tot"
  by (simp add: effectivePage_def)

lemma effectivePage_lower: "1 \<le> cp \<Longrightarrow> 1 \<le> effectivePage ps cp tot"
  by (simp add: effectivePage_def totalPages_ge_1)

text \<open>The page counts that the examples below use.\<close>

lemma totalPages_examples:
  "totalPages SELLERS_PAGE_SIZE 0 = 1"
  "totalPages SELLERS_PAGE_SIZE 45 = 1"
  "totalPages SELLERS_PAGE_SIZE 120 = 3"
  "totalPages APPOINTMENTS_PAGE_SIZE 0 = 1"
  "totalPages APPOINTMENTS_PAGE_SIZE 45 = 3"
  "totalPages APPOINTMENTS_PAGE_SIZE 200 = 10"
  by code_simp+

lemma js_int_plus_examples: "js_int_plus 1 1 = 2" "js_int_plus 2 1 = 3"
  by (simp_all add: js_int_plus_exact)

text \<open>
  C5. After a successful fetch whose total is a whole number from 0 up to, but not
  including, \<open>2 ^ 53\<close>, the page count derived from the stored total is
  \<open>max 1 (ceiling (total / pageSize))\<close> of the total the server reported, the
  quotient being the exact one, on both pages; a total of 0 gives one page. On the
  sellers page the response is applied when its request is the latest one. By
  \<open>totalPages_covers\<close> and \<open>totalPages_least\<close> this is the least number of
  pages, at least one, that holds all items.
\<close>

theorem totalPages_after_fetch:
  assumes "requestId rq = latestRequestRef s"
    and "0 \<le> resp_total resp" and "resp_total resp < 2 ^ 53"
  shows "totalPages SELLERS_PAGE_SIZE (total_count (fetchSellers_resolved rq resp s))
           = max 1 \<lceil>(of_int (resp_total resp) / of_int SELLERS_PAGE_SIZE :: rat)\<rceil>
       \<and> totalPages APPOINTMENTS_PAGE_SIZE (total_count (fetchAppointments_resolved rq' resp s'))
           = max 1 \<lceil>(of_int (resp_total resp) / of_int APPOINTMENTS_PAGE_SIZE :: rat)\<rceil>
       \<and> (resp_total resp = 0 \<longrightarrow>
             totalPages SELLERS_PAGE_SIZE (total_count (fetchSellers_resolved rq resp s)) = 1
           \<and> totalPages APPOINTMENTS_PAGE_SIZE
               (total_count (fetchAppointments_resolved rq' resp s')) = 1)"
proof -
  have ts: "total_count (fetchSellers_resolved rq resp s) = resp_total resp"
    using assms(1) by (simp add: fetchSellers_resolved_def)
  have ta: "total_count (fetchAppointments_resolved rq' resp s') = resp_total resp"
    by (simp add: fetchAppointments_resolved_def)
  have sellers: "totalPages SELLERS_PAGE_SIZE (resp_total resp)
      = max 1 \<lceil>(of_int (resp_total resp) / of_int SELLERS_PAGE_SIZE :: rat)\<rceil>"
    using assms(2,3) by (intro totalPages_safe) (simp_all add: SELLERS_PAGE_SIZE_def)
  have appointments: "totalPages APPOINTMENTS_PAGE_SIZE (resp_total resp)
      = max 1 \<lceil>(of_int (resp_total resp) / of_int APPOINTMENTS_PAGE_SIZE :: rat)\<rceil>"
    using assms(2,3) by (intro totalPages_safe) (simp_all add: APPOINTMENTS_PAGE_SIZE_def)
  show ?thesis
    unfolding ts ta sellers appointments by simp
qed

theorem totalPages_after_fetch_witness:
  "requestId (snd (sellers_mounted :: nat sellers_state \<times> sellers_fetch))
     = latestRequestRef (fst (sellers_mounted :: nat sellers_state \<times> sellers_fetch))
   \<and> totalPages SELLERS_PAGE_SIZE (total_count (fetchSellers_resolved
        (snd (sellers_mounted :: nat sellers_state \<times> sellers_fetch))
        \<lparr>resp_data = [], resp_total = 0, resp_page = Some 1\<rparr>
        (fst (sellers_mounted :: nat sellers_state \<times> sellers_fetch)))) = 1
   \<and> totalPages APPOINTMENTS_PAGE_SIZE (total_count (fetchAppointments_resolved
        (snd (appointments_mounted :: nat appointments_state \<times> appointments_fetch))
        \<lparr>resp_data = [], resp_total = 0, resp_page = Some 1\<rparr>
        (fst (appointments_mounted :: nat appointments_state \<times> appointments_fetch)))) = 1
   \<and> totalPages SELLERS_PAGE_SIZE (total_count (fetchSellers_resolved
        (snd (sellers_mounted :: nat sellers_state \<times> sellers_fetch))
        \<lparr>resp_data = [4, 5], resp_total = 45, resp_page = Some 1\<rparr>
        (fst (sellers_mounted :: nat sellers_state \<times> sellers_fetch)))) = 1
   \<and> totalPages APPOINTMENTS_PAGE_SIZE (total_count (fetchAppointments_resolved
        (snd (appointments_mounted :: nat appointments_state \<times> appointments_fetch))
        \<lparr>resp_data = [4, 5], resp_total = 45, resp_page = Some 1\<rparr>
        (fst (appointments_mounted :: nat appointments_state \<times> appointments_fetch)))) = 3"
proof -
  let ?rq = "snd (sellers_mounted :: nat sellers_state \<times> sellers_fetch)"
  let ?s = "fst (sellers_mounted :: nat sellers_state \<times> sellers_fetch)"
  let ?rq' = "snd (appointments_mounted :: nat appointments_state \<times> appointments_fetch)"
  let ?s' = "fst (appointments_mounted :: nat appointments_state \<times> appointments_fetch)"
  have latest: "requestId ?rq = latestRequestRef ?s"
    by (simp add: sellers_mounted_def sellers_initial_def fetchSellers_def)
  have exact: "\<lceil>(9 / 10 :: rat)\<rceil> = 1" "\<lceil>(9 / 4 :: rat)\<rceil> = 3"
    by code_simp+
  show ?thesis
    using latest
      totalPages_after_fetch [OF latest,
        of "\<lparr>resp_data = [], resp_total = 0, resp_page = Some 1\<rparr>" ?rq' ?s']
      totalPages_after_fetch [OF latest,
        of "\<lparr>resp_data = [4, 5], resp_total = 45, resp_page = Some 1\<rparr>" ?rq' ?s']
    by (simp add: SELLERS_PAGE_SIZE_def APPOINTMENTS_PAGE_SIZE_def exact)
qed

text \<open>
  For every total that is not negative the claim fails: the quotient is rounded to
  53 significant bits before its ceiling is taken. When the server reports
  \<open>2 ^ 62 = 4611686018427387904\<close> items, the appointments page derives
  230584300921369408 pages where the exact count is 230584300921369396, and the
  sellers page 92233720368547760 where it is 92233720368547759.
\<close>

theorem totalPages_after_fetch_counterexample:
  "(0::int) \<le> 4611686018427387904
   \<and> total_count (fetchAppointments_resolved
        (snd (appointments_mounted :: nat appointments_state \<times> appointments_fetch))
        \<lparr>resp_data = [], resp_total = 4611686018427387904, resp_page = Some 1\<rparr>
        (fst (appointments_mounted :: nat appointments_state \<times> appointments_fetch)))
       = 4611686018427387904
   \<and> totalPages APPOINTMENTS_PAGE_SIZE 4611686018427387904 = 230584300921369408
   \<and> max 1 \<lceil>(4611686018427387904 / of_int APPOINTMENTS_PAGE_SIZE :: rat)\<rceil>
       = 230584300921369396
   \<and> total_count (fetchSellers_resolved
        (snd (sellers_mounted :: nat sellers_state \<times> sellers_fetch))
        \<lparr>resp_data = [], resp_total = 4611686018427387904, resp_page = Some 1\<rparr>
        (fst (sellers_mounted :: nat sellers_state \<times> sellers_fetch)))
       = 4611686018427387904
   \<and> totalPages SELLERS_PAGE_SIZE 4611686018427387904 = 92233720368547760
   \<and> max 1 \<lceil>(4611686018427387904 / of_int SELLERS_PAGE_SIZE :: rat)\<rceil>
       = 92233720368547759"
proof -
  have "totalPages APPOINTMENTS_PAGE_SIZE 4611686018427387904 = 230584300921369408"
    by code_simp
  moreover have "max 1 \<lceil>(4611686018427387904 / of_int APPOINTMENTS_PAGE_SIZE :: rat)\<rceil>
      = 230584300921369396"
    by code_simp
  moreover have "totalPages SELLERS_PAGE_SIZE 4611686018427387904 = 92233720368547760"
    by code_simp
  moreover have "max 1 \<lceil>(4611686018427387904 / of_int SELLERS_PAGE_SIZE :: rat)\<rceil>
      = 92233720368547759"
    by code_simp
  ultimately show ?thesis
    by (simp add: fetchAppointments_resolved_def fetchSellers_resolved_def
        sellers_mounted_def sellers_initial_def fetchSellers_def)
qed

text \<open>
  C10. For a current page of at least 1 and a total that is a whole number from 0
  up to, but not including, \<open>2 ^ 53\<close>, the range shown under the table is empty
  (0 to 0) when there are no items, and otherwise satisfies
  \<open>1 \<le> showingFrom \<le> showingTo \<le> total\<close>, with
  \<open>showingFrom = (effectivePage - 1) * PAGE_SIZE + 1\<close> and
  \<open>showingTo = min (effectivePage * PAGE_SIZE) total\<close> in exact arithmetic, for
  every positive page size up to \<open>2 ^ 53\<close>. With 45 items, a page size of 20 and
  page 3 the range is 41 to 45.
\<close>

theorem showing_range:
  assumes cp: "1 \<le> cp" and tot: "0 \<le> tot" "tot < 2 ^ 53" and ps: "0 < ps" "ps \<le> 2 ^ 53"
  shows "(tot = 0 \<longrightarrow> showingFrom ps cp tot = Finite 0 \<and> showingTo ps cp tot = Finite 0)
       \<and> (0 < tot \<longrightarrow>
            showingFrom ps cp tot = Finite (of_int ((effectivePage ps cp tot - 1) * ps + 1))
          \<and> showingTo ps cp tot = Finite (of_int (min (effectivePage ps cp tot * ps) tot))
          \<and> 1 \<le> (effectivePage ps cp tot - 1) * ps + 1
          \<and> (effectivePage ps cp tot - 1) * ps + 1 \<le> min (effectivePage ps cp tot * ps) tot
          \<and> min (effectivePage ps cp tot * ps) tot \<le> tot)"
proof (intro conjI impI)
  show "showingFrom ps cp tot = Finite 0" if "tot = 0"
    using that by (simp add: showingFrom_def)
  show "showingTo ps cp tot = Finite 0" if "tot = 0"
    using that by (simp add: showingTo_def)
next
  assume pos: "0 < tot"
  define e where "e = effectivePage ps cp tot"
  have e1: "1 \<le> e" and e2: "e \<le> totalPages ps tot"
    using effectivePage_lower [OF cp, of ps tot] effectivePage_upper [of ps cp tot]
    by (simp_all add: e_def)
  have nonneg: "0 \<le> (e - 1) * ps"
    using e1 ps(1) by simp
  have "(e - 1) * ps \<le> (totalPages ps tot - 1) * ps"
    using e2 ps(1) by (simp add: mult_right_mono)
  with totalPages_tight [OF pos tot(2) ps] have below: "(e - 1) * ps < tot"
    by linarith
  have next_page: "e * ps = (e - 1) * ps + ps"
    by (simp add: algebra_simps)
  have "(e - 1) * 1 \<le> (e - 1) * ps"
    using e1 ps(1) by (intro mult_left_mono) simp_all
  then have e_small: "e - 1 \<le> (e - 1) * ps" by simp
  have step1: "js_plus (Finite (of_int e)) (- 1) = Finite (of_int (e - 1))"
  proof -
    have "\<bar>e - 1\<bar> \<le> 2 ^ 53" using e1 e_small below tot(2) by simp
    from js_round_of_int [OF this] show ?thesis by simp
  qed
  have step2: "js_times (Finite (of_int (e - 1))) (of_int ps) = Finite (of_int ((e - 1) * ps))"
  proof -
    have "\<bar>(e - 1) * ps\<bar> \<le> 2 ^ 53" using nonneg below tot(2) by simp
    from js_round_of_int [OF this] show ?thesis by simp
  qed
  have step3: "js_plus (Finite (of_int ((e - 1) * ps))) 1 = Finite (of_int ((e - 1) * ps + 1))"
  proof -
    have "\<bar>(e - 1) * ps + 1\<bar> \<le> 2 ^ 53" using nonneg below tot(2) by simp
    from js_round_of_int [OF this] show ?thesis by simp
  qed
  show "showingFrom ps cp tot = Finite (of_int ((effectivePage ps cp tot - 1) * ps + 1))"
    using pos unfolding showingFrom_def e_def [symmetric]
    by (simp only: step1 step2 step3) simp
  have to_start: "showingTo ps cp tot
      = js_min (js_times (Finite (of_int e)) (of_int ps)) (Finite (of_int tot))"
    using pos by (simp add: showingTo_def e_def)
  show "showingTo ps cp tot = Finite (of_int (min (effectivePage ps cp tot * ps) tot))"
  proof (cases "e * ps \<le> 2 ^ 53")
    case True
    have "\<bar>e * ps\<bar> \<le> 2 ^ 53" using True nonneg ps(1) next_page by simp
    from js_round_of_int [OF this]
    have times: "js_times (Finite (of_int e)) (of_int ps) = Finite (of_int (e * ps))" by simp
    have "showingTo ps cp tot = Finite (min (of_int (e * ps)) (of_int tot))"
      by (simp only: to_start times js_min.simps)
    also have "\<dots> = Finite (of_int (min (e * ps) tot))"
      by (simp only: of_int_min)
    finally show ?thesis by (simp only: e_def)
  next
    case False
    have "\<bar>e * ps\<bar> < 2 ^ 54" using nonneg below tot(2) ps next_page by simp
    from js_round_near_int [OF this] obtain r
      where r: "js_round (of_int (e * ps)) = Finite r" and near: "\<bar>r - of_int (e * ps)\<bar> \<le> 1"
      by blast
    from False have "2 ^ 53 + 1 \<le> e * ps" by simp
    then have "(of_int (2 ^ 53 + 1) :: rat) \<le> of_int (e * ps)"
      by (simp only: of_int_le_iff)
    then have "(2 ^ 53 + 1 :: rat) \<le> of_int (e * ps)" by simp
    with near have big: "2 ^ 53 \<le> r" by linarith
    have "(of_int tot :: rat) < of_int (2 ^ 53)"
      using tot(2) by (simp only: of_int_less_iff)
    then have "(of_int tot :: rat) < 2 ^ 53" by simp
    with big have small: "min r (of_int tot) = of_int tot" by simp
    have exact: "min (e * ps) tot = tot" using False tot(2) by simp
    have times: "js_times (Finite (of_int e)) (of_int ps) = Finite r"
      using r by simp
    have "showingTo ps cp tot = Finite (min r (of_int tot))"
      by (simp only: to_start times js_min.simps)
    also have "\<dots> = Finite (of_int (min (e * ps) tot))"
      by (simp only: small exact)
    finally show ?thesis by (simp only: e_def)
  qed
  show "1 \<le> (effectivePage ps cp tot - 1) * ps + 1"
    using nonneg by (simp add: e_def)
  show "(effectivePage ps cp tot - 1) * ps + 1 \<le> min (effectivePage ps cp tot * ps) tot"
    using below next_page ps(1) unfolding e_def [symmetric] by simp
  show "min (effectivePage ps cp tot * ps) tot \<le> tot"
    by simp
qed

theorem showing_range_witness:
  "(1::int) \<le> 3 \<and> (0::int) \<le> 45 \<and> (45::int) < 2 ^ 53
   \<and> 0 < APPOINTMENTS_PAGE_SIZE \<and> APPOINTMENTS_PAGE_SIZE \<le> 2 ^ 53
   \<and> showingFrom APPOINTMENTS_PAGE_SIZE 3 45 = Finite 41
   \<and> showingTo APPOINTMENTS_PAGE_SIZE 3 45 = Finite 45
   \<and> showingFrom SELLERS_PAGE_SIZE 1 0 = Finite 0 \<and> showingTo SELLERS_PAGE_SIZE 1 0 = Finite 0"
proof -
  have e: "effectivePage APPOINTMENTS_PAGE_SIZE 3 45 = 3"
    by (simp add: effectivePage_def totalPages_examples)
  have twenty: "APPOINTMENTS_PAGE_SIZE = 20"
    by (simp add: APPOINTMENTS_PAGE_SIZE_def)
  have "(1::int) \<le> 3" "(0::int) \<le> 45" "(45::int) < 2 ^ 53"
    "0 < APPOINTMENTS_PAGE_SIZE" "APPOINTMENTS_PAGE_SIZE \<le> 2 ^ 53"
    "(1::int) \<le> 1" "(0::int) \<le> 0" "(0::int) < 2 ^ 53"
    "0 < SELLERS_PAGE_SIZE" "SELLERS_PAGE_SIZE \<le> 2 ^ 53"
    by (simp_all add: APPOINTMENTS_PAGE_SIZE_def SELLERS_PAGE_SIZE_def)
  then show ?thesis
    using showing_range [of 3 45 APPOINTMENTS_PAGE_SIZE] showing_range [of 1 0 SELLERS_PAGE_SIZE]
    by (simp add: e) (simp add: twenty)
qed

text \<open>
  For every state with a current page of at least 1 the claim fails: the product and
  the sum are rounded. On the appointments page, with 180144586636442144 items and
  the current page 9007229331822108, which is the last page, the range starts at
  180144586636442176 and ends at 180144586636442144, below its start.
\<close>

theorem showing_range_counterexample:
  "(1::int) \<le> 9007229331822108 \<and> (0::int) < 180144586636442144
   \<and> effectivePage APPOINTMENTS_PAGE_SIZE 9007229331822108 180144586636442144
       = 9007229331822108
   \<and> showingFrom APPOINTMENTS_PAGE_SIZE 9007229331822108 180144586636442144
       = Finite 180144586636442176
   \<and> showingTo APPOINTMENTS_PAGE_SIZE 9007229331822108 180144586636442144
       = Finite 180144586636442144
   \<and> \<not> ((180144586636442176::rat) \<le> 180144586636442144)"
proof -
  have e: "effectivePage APPOINTMENTS_PAGE_SIZE 9007229331822108 180144586636442144
      = 9007229331822108"
    by code_simp
  have "to_double 9007229331822107 = 9007229331822108" by code_simp
  then have difference: "js_round 9007229331822107 = Finite 9007229331822108"
    by (simp add: js_round_below)
  have "to_double 180144586636442160 = 180144586636442176" by code_simp
  then have product: "js_round 180144586636442160 = Finite 180144586636442176"
    by (simp add: js_round_below)
  have "to_double 180144586636442177 = 180144586636442176" by code_simp
  then have sum: "js_round 180144586636442177 = Finite 180144586636442176"
    by (simp add: js_round_below)
  show ?thesis
    unfolding showingFrom_def showingTo_def e
    by (simp add: difference product sum APPOINTMENTS_PAGE_SIZE_def)
qed

section \<open>Deletion and failed mutations\<close>

lemma sellers_step_CancelDelete:
  "sellers_step CancelDelete s = (handleCancelDeleteSeller s, [])"
  by (simp add: sellers_step_def debounceEffect_def handleCancelDeleteSeller_def)

lemma cancel_run_while_deleting:
  "isDeleting s \<Longrightarrow> sellers_run (replicate n CancelDelete) s = (s, [])"
  by (induction n) (simp_all add: sellers_step_CancelDelete handleCancelDeleteSeller_def)

text \<open>
  C7. While a delete call is in flight (\<open>isDeleting\<close>, \<open>isDeletingAppointment\<close>) the
  cancel action of the confirmation dialog changes nothing and issues nothing, and
  the item stays pending however often cancel is invoked after the confirmed delete
  has started; when no delete is in flight, cancel clears the pending item and
  nothing else.
\<close>

theorem cancel_ignored_while_deleting:
  "(isDeleting s \<longrightarrow> sellers_step CancelDelete s = (s, []))
   \<and> (\<not> isDeleting s \<longrightarrow>
        sellers_step CancelDelete s = (s\<lparr>sellerPendingDeletion := None\<rparr>, []))
   \<and> (sellerPendingDeletion s = Some x \<longrightarrow>
        isDeleting (fst (sellers_step ConfirmDeleteStart s))
      \<and> sellerPendingDeletion (fst (sellers_step ConfirmDeleteStart s)) = Some x
      \<and> sellers_run (replicate n CancelDelete) (fst (sellers_step ConfirmDeleteStart s))
          = (fst (sellers_step ConfirmDeleteStart s), []))
   \<and> (isDeletingAppointment a \<longrightarrow> handleCancelDeleteAppointment a = a)
   \<and> (\<not> isDeletingAppointment a \<longrightarrow>
        handleCancelDeleteAppointment a = a\<lparr>appointmentPendingDeletion := None\<rparr>)
   \<and> (appointmentPendingDeletion a = Some y \<longrightarrow>
        isDeletingAppointment (handleConfirmDeleteAppointment_start a)
      \<and> handleCancelDeleteAppointment (handleConfirmDeleteAppointment_start a)
          = handleConfirmDeleteAppointment_start a
      \<and> appointmentPendingDeletion (handleConfirmDeleteAppointment_start a) = Some y)"
proof (intro conjI impI)
  show "sellers_step CancelDelete s = (s, [])" if "isDeleting s"
    using that by (simp add: sellers_step_CancelDelete handleCancelDeleteSeller_def)
  show "sellers_step CancelDelete s = (s\<lparr>sellerPendingDeletion := None\<rparr>, [])"
    if "\<not> isDeleting s"
    using that by (simp add: sellers_step_CancelDelete handleCancelDeleteSeller_def)
  show "handleCancelDeleteAppointment a = a" if "isDeletingAppointment a"
    using that by (simp add: handleCancelDeleteAppointment_def)
  show "handleCancelDeleteAppointment a = a\<lparr>appointmentPendingDeletion := None\<rparr>"
    if "\<not> isDeletingAppointment a"
    using that by (simp add: handleCancelDeleteAppointment_def)
next
  assume pending: "sellerPendingDeletion s = Some x"
  have started: "fst (sellers_step ConfirmDeleteStart s) = s\<lparr>isDeleting := True, error := None\<rparr>"
    using pending
    by (simp add: sellers_step_def debounceEffect_def handleConfirmDeleteSeller_start_def)
  show deleting: "isDeleting (fst (sellers_step ConfirmDeleteStart s))"
    by (simp add: started)
  show "sellerPendingDeletion (fst (sellers_step ConfirmDeleteStart s)) = Some x"
    using pending by (simp add: started)
  show "sellers_run (replicate n CancelDelete) (fst (sellers_step ConfirmDeleteStart s))
          = (fst (sellers_step ConfirmDeleteStart s), [])"
    using deleting by (rule cancel_run_while_deleting)
next
  assume pending: "appointmentPendingDeletion a = Some y"
  then have started:
    "handleConfirmDeleteAppointment_start a = a\<lparr>isDeletingAppointment := True\<rparr>"
    by (simp add: handleConfirmDeleteAppointment_start_def)
  show "isDeletingAppointment (handleConfirmDeleteAppointment_start a)"
    by (simp add: started)
  show "handleCancelDeleteAppointment (handleConfirmDeleteAppointment_start a)
          = handleConfirmDeleteAppointment_start a"
    by (simp add: started handleCancelDeleteAppointment_def)
  show "appointmentPendingDeletion (handleConfirmDeleteAppointment_start a) = Some y"
    using pending by (simp add: started)
qed

text \<open>
  The witness takes the mounted pages with item 7 requested for deletion: before the
  delete is confirmed cancel clears the pending item, after the confirmed delete has
  started three cancels leave it pending.
\<close>

theorem cancel_ignored_while_deleting_witness:
  "\<not> isDeleting (requestDeleteSeller (7::nat) (fst sellers_mounted))
   \<and> sellerPendingDeletion (requestDeleteSeller (7::nat) (fst sellers_mounted)) = Some 7
   \<and> sellerPendingDeletion
        (fst (sellers_step CancelDelete (requestDeleteSeller (7::nat) (fst sellers_mounted))))
        = None
   \<and> isDeleting (fst (sellers_step ConfirmDeleteStart
        (requestDeleteSeller (7::nat) (fst sellers_mounted))))
   \<and> sellerPendingDeletion (fst (sellers_run (replicate 3 CancelDelete)
        (fst (sellers_step ConfirmDeleteStart
           (requestDeleteSeller (7::nat) (fst sellers_mounted)))))) = Some 7
   \<and> \<not> isDeletingAppointment (requestDeleteAppointment (7::nat) (fst appointments_mounted))
   \<and> appointmentPendingDeletion
        (handleCancelDeleteAppointment
           (requestDeleteAppointment (7::nat) (fst appointments_mounted))) = None
   \<and> isDeletingAppointment (handleConfirmDeleteAppointment_start
        (requestDeleteAppointment (7::nat) (fst appointments_mounted)))
   \<and> appointmentPendingDeletion
        (handleCancelDeleteAppointment (handleConfirmDeleteAppointment_start
           (requestDeleteAppointment (7::nat) (fst appointments_mounted)))) = Some 7"
proof -
  let ?s = "requestDeleteSeller (7::nat) (fst sellers_mounted)"
  let ?a = "requestDeleteAppointment (7::nat) (fst appointments_mounted)"
  have idle: "\<not> isDeleting ?s"
    by (simp add: requestDeleteSeller_def sellers_mounted_def sellers_initial_def fetchSellers_def)
  have pending: "sellerPendingDeletion ?s = Some 7"
    by (simp add: requestDeleteSeller_def)
  have idle': "\<not> isDeletingAppointment ?a"
    by (simp add: requestDeleteAppointment_def appointments_mounted_def
        appointments_initial_def fetchAppointments_def)
  have pending': "appointmentPendingDeletion ?a = Some 7"
    by (simp add: requestDeleteAppointment_def)
  have busy: "isDeletingAppointment (handleConfirmDeleteAppointment_start ?a)"
    using pending' by (simp add: handleConfirmDeleteAppointment_start_def)
  note c1 = cancel_ignored_while_deleting [of ?s 7 3 ?a 7]
  note c2 = cancel_ignored_while_deleting
    [of ?s 7 3 "handleConfirmDeleteAppointment_start ?a" 7]
  show ?thesis
    using idle pending idle' pending' busy c1 c2 by simp
qed

text \<open>
  C8. A create, update or delete call that fails leaves the list and the total
  as they were. On the sellers page the whole failed operation, from its start to
  its \<open>catch\<close> block, changes only the error message; so does a failed create or
  update on the appointments page, and a failed delete on either page when the
  operation started with no other delete in flight. Whatever happened while the
  call was in flight, the \<open>catch\<close> and \<open>finally\<close> blocks themselves touch
  neither the list nor the total.
\<close>

theorem failed_mutation_keeps_list:
  "sellers_run [SubmitStart, SubmitFailed] s
     = (s\<lparr>error := Some ''Erro ao salvar vendedor.''\<rparr>, [])
   \<and> (sellerPendingDeletion s \<noteq> None \<and> \<not> isDeleting s \<longrightarrow>
        sellers_run [ConfirmDeleteStart, ConfirmDeleteFailed] s
          = (s\<lparr>error := Some ''Erro ao remover vendedor.''\<rparr>, []))
   \<and> sellers (sellers_handleSubmit_failed t) = sellers t
   \<and> total_count (sellers_handleSubmit_failed t) = total_count t
   \<and> sellers (handleConfirmDeleteSeller_failed t) = sellers t
   \<and> total_count (handleConfirmDeleteSeller_failed t) = total_count t
   \<and> appointments_handleSubmit_failed a = a\<lparr>error := Some ''Erro ao salvar call.''\<rparr>
   \<and> (appointmentPendingDeletion a \<noteq> None \<and> \<not> isDeletingAppointment a \<longrightarrow>
        handleConfirmDeleteAppointment_failed (handleConfirmDeleteAppointment_start a)
          = a\<lparr>error := Some ''Erro ao remover call.''\<rparr>)
   \<and> appointments (handleConfirmDeleteAppointment_failed b) = appointments b
   \<and> total_count (handleConfirmDeleteAppointment_failed b) = total_count b"
proof (intro conjI impI)
  show "sellers_run [SubmitStart, SubmitFailed] s
          = (s\<lparr>error := Some ''Erro ao salvar vendedor.''\<rparr>, [])"
    by (simp add: sellers_step_def debounceEffect_def sellers_handleSubmit_start_def
        sellers_handleSubmit_failed_def)
  show "sellers_run [ConfirmDeleteStart, ConfirmDeleteFailed] s
          = (s\<lparr>error := Some ''Erro ao remover vendedor.''\<rparr>, [])"
    if "sellerPendingDeletion s \<noteq> None \<and> \<not> isDeleting s"
    using that
    by (cases s) (simp add: sellers_step_def debounceEffect_def
        handleConfirmDeleteSeller_start_def handleConfirmDeleteSeller_failed_def)
  show "handleConfirmDeleteAppointment_failed (handleConfirmDeleteAppointment_start a)
          = a\<lparr>error := Some ''Erro ao remover call.''\<rparr>"
    if "appointmentPendingDeletion a \<noteq> None \<and> \<not> isDeletingAppointment a"
    using that
    by (cases a) (simp add: handleConfirmDeleteAppointment_start_def
        handleConfirmDeleteAppointment_failed_def)
qed (simp_all add: sellers_handleSubmit_failed_def handleConfirmDeleteSeller_failed_def
    appointments_handleSubmit_failed_def handleConfirmDeleteAppointment_failed_def)

theorem failed_mutation_keeps_list_witness:
  "sellerPendingDeletion (requestDeleteSeller (7::nat) (fst sellers_mounted)) \<noteq> None
   \<and> \<not> isDeleting (requestDeleteSeller (7::nat) (fst sellers_mounted))
   \<and> sellers_run [ConfirmDeleteStart, ConfirmDeleteFailed]
        (requestDeleteSeller (7::nat) (fst sellers_mounted))
       = ((requestDeleteSeller (7::nat) (fst sellers_mounted))
            \<lparr>error := Some ''Erro ao remover vendedor.''\<rparr>, [])
   \<and> appointmentPendingDeletion (requestDeleteAppointment (7::nat) (fst appointments_mounted))
        \<noteq> None
   \<and> \<not> isDeletingAppointment (requestDeleteAppointment (7::nat) (fst appointments_mounted))
   \<and> handleConfirmDeleteAppointment_failed (handleConfirmDeleteAppointment_start
        (requestDeleteAppointment (7::nat) (fst appointments_mounted)))
       = (requestDeleteAppointment (7::nat) (fst appointments_mounted))
           \<lparr>error := Some ''Erro ao remover call.''\<rparr>"
proof -
  let ?s = "requestDeleteSeller (7::nat) (fst sellers_mounted)"
  let ?a = "requestDeleteAppointment (7::nat) (fst appointments_mounted)"
  have idle: "\<not> isDeleting ?s"
    by (simp add: requestDeleteSeller_def sellers_mounted_def sellers_initial_def fetchSellers_def)
  have pending: "sellerPendingDeletion ?s \<noteq> None"
    by (simp add: requestDeleteSeller_def)
  have idle': "\<not> isDeletingAppointment ?a"
    by (simp add: requestDeleteAppointment_def appointments_mounted_def
        appointments_initial_def fetchAppointments_def)
  have pending': "appointmentPendingDeletion ?a \<noteq> None"
    by (simp add: requestDeleteAppointment_def)
  show ?thesis
    using idle pending idle' pending' failed_mutation_keeps_list [of ?s ?s ?a ?a]
    by simp
qed

section \<open>Fetching and request numbers on the sellers page\<close>

lemma fetchSellers_state:
  "fst (fetchSellers cp lfs optPage optSearchTerm s) =
     (if (case optPage of Some p \<Rightarrow> p | None \<Rightarrow> cp) \<noteq> cp
      then s\<lparr>currentPage := (case optPage of Some p \<Rightarrow> p | None \<Rightarrow> cp)\<rparr> else s)
     \<lparr>latestRequestRef := Suc (latestRequestRef s), isLoading := True, error := None\<rparr>"
  by (simp add: fetchSellers_def Let_def)

lemma fetchSellers_call:
  "snd (fetchSellers cp lfs optPage optSearchTerm s) =
     \<lparr>pageToFetch = (case optPage of Some p \<Rightarrow> p | None \<Rightarrow> cp), previousPage = cp,
      requestId = Suc (latestRequestRef s),
      searchTerm = (case optSearchTerm of Some t \<Rightarrow> t | None \<Rightarrow> lfs)\<rparr>"
  by (simp add: fetchSellers_def Let_def)

lemma fetchSellers_live_page:
  "currentPage (fst (fetchSellers (currentPage s) lfs optPage optSearchTerm s))
     = pageToFetch (snd (fetchSellers (currentPage s) lfs optPage optSearchTerm s))"
  by (simp add: fetchSellers_state fetchSellers_call)

lemma debounceEffect_fields [simp]:
  "currentPage (debounceEffect prev s) = currentPage s"
  "latestRequestRef (debounceEffect prev s) = latestRequestRef s"
  "error (debounceEffect prev s) = error s"
  "isLoading (debounceEffect prev s) = isLoading s"
  "sellers (debounceEffect prev s) = sellers s"
  "total_count (debounceEffect prev s) = total_count s"
  "search (debounceEffect prev s) = search s"
  "lastFetchedSearch (debounceEffect prev s) = lastFetchedSearch s"
  by (simp_all add: debounceEffect_def)

lemmas sellers_handler_defs =
  handleSearchChange_def timerTick_def sellers_handlePageChange_def
  sellers_handlePreviousPage_def sellers_handleNextPage_def onSearchEnter_def
  onRefreshClick_def fetchSellers_resolved_def fetchSellers_rejected_def
  sellers_openModal_def sellers_closeModal_def sellers_handleSubmit_start_def
  sellers_handleSubmit_failed_def sellers_handleSubmit_saved_def requestDeleteSeller_def
  handleCancelDeleteSeller_def handleConfirmDeleteSeller_start_def
  handleConfirmDeleteSeller_failed_def handleConfirmDeleteSeller_deleted_def
  handleConfirmDeleteSeller_finally_def

text \<open>The request counter never decreases, and it grows by one for each request issued.\<close>

lemma sellers_handle_counter:
  "latestRequestRef (fst (sellers_handle e s))
     = latestRequestRef s + length (snd (sellers_handle e s))"
  by (cases e)
    (auto simp: sellers_handler_defs fetchSellers_def Let_def split: option.splits prod.splits)

lemma sellers_step_counter:
  "sellers_step e s = (s', rs) \<Longrightarrow> latestRequestRef s' = latestRequestRef s + length rs"
  using sellers_handle_counter [of e s]
  by (auto simp: sellers_step_def split: prod.splits)

lemma sellers_run_counter:
  "sellers_run es s = (s', rs) \<Longrightarrow> latestRequestRef s' = latestRequestRef s + length rs"
proof (induction es arbitrary: s s' rs)
  case Nil
  then show ?case by simp
next
  case (Cons e es)
  obtain s1 rs1 where step: "sellers_step e s = (s1, rs1)"
    by (cases "sellers_step e s")
  obtain s2 rs2 where run: "sellers_run es s1 = (s2, rs2)"
    by (cases "sellers_run es s1")
  from Cons.prems step run have "s' = s2" "rs = rs1 @ rs2"
    by simp_all
  with sellers_step_counter [OF step] Cons.IH [OF run] show ?case
    by simp
qed

text \<open>
  An event that issues no request and does not settle the latest request leaves the
  current page alone.
\<close>

lemma sellers_handle_page:
  assumes "snd (sellers_handle e s) = []" and "\<not> settles (latestRequestRef s) e"
  shows "currentPage (fst (sellers_handle e s)) = currentPage s"
  using assms
  by (cases e)
    (auto simp: sellers_handler_defs fetchSellers_def Let_def split: option.splits prod.splits
      if_splits)

lemma sellers_step_page:
  assumes "sellers_step e s = (s', [])" and "\<not> settles (latestRequestRef s) e"
  shows "currentPage s' = currentPage s"
proof -
  from assms(1) have "snd (sellers_handle e s) = []"
    and "s' = debounceEffect s (fst (sellers_handle e s))"
    by (auto simp: sellers_step_def split: prod.splits)
  with sellers_handle_page [OF _ assms(2)] show ?thesis by simp
qed

lemma sellers_run_page:
  assumes "sellers_run es s = (s', [])" and "\<forall>e\<in>set es. \<not> settles (latestRequestRef s) e"
  shows "currentPage s' = currentPage s"
  using assms
proof (induction es arbitrary: s)
  case Nil
  then show ?case by simp
next
  case (Cons e es)
  obtain s1 rs1 where step: "sellers_step e s = (s1, rs1)"
    by (cases "sellers_step e s")
  obtain s2 rs2 where run: "sellers_run es s1 = (s2, rs2)"
    by (cases "sellers_run es s1")
  from Cons.prems(1) step run have none: "rs1 = []" "rs2 = []" and s': "s' = s2"
    by simp_all
  from sellers_step_counter [OF step] none have same: "latestRequestRef s1 = latestRequestRef s"
    by simp
  have "currentPage s1 = currentPage s"
    using step none Cons.prems(2) by (auto intro: sellers_step_page)
  moreover have "currentPage s' = currentPage s1"
    using Cons.IH [of s1] run none Cons.prems(2) same by (simp add: s')
  ultimately show ?case by simp
qed

text \<open>
  On the sellers page a response or failure whose request number is not the latest
  is dropped: the state stays as it is and nothing is issued.
\<close>

lemma stale_sellers_completion_discarded:
  assumes "requestId rq \<noteq> latestRequestRef s"
  shows "sellers_step (FetchResolved rq resp) s = (s, [])"
    and "sellers_step (FetchRejected rq) s = (s, [])"
  using assms
  by (simp_all add: sellers_step_def debounceEffect_def fetchSellers_resolved_def
      fetchSellers_rejected_def)

lemma superseded_completions_discarded:
  "\<forall>e\<in>set es. superseded (latestRequestRef s) e \<Longrightarrow> sellers_run es s = (s, [])"
proof (induction es)
  case Nil
  then show ?case by simp
next
  case (Cons e es)
  from Cons.prems have "superseded (latestRequestRef s) e"
    by simp
  then have "sellers_step e s = (s, [])"
    by (cases e) (simp_all add: stale_sellers_completion_discarded)
  with Cons show ?case
    by simp
qed

lemma latest_sellers_response_applied:
  assumes "requestId rq = latestRequestRef s"
  shows "sellers (fst (sellers_step (FetchResolved rq resp) s)) = resp_data resp"
    and "total_count (fst (sellers_step (FetchResolved rq resp) s)) = resp_total resp"
    and "currentPage (fst (sellers_step (FetchResolved rq resp) s))
           = (case resp_page resp of Some p \<Rightarrow> p | None \<Rightarrow> pageToFetch rq)"
    and "\<not> isLoading (fst (sellers_step (FetchResolved rq resp) s))"
  using assms
  by (simp_all add: sellers_step_def fetchSellers_resolved_def)

lemma sellers_handle_issue:
  assumes "sellers_handle e s = (s1, [rq])" and "closure_current s e"
  shows "requestId rq = latestRequestRef s1" and "previousPage rq = currentPage s"
    and "currentPage s1 = pageToFetch rq"
  using assms
  by (cases e;
      auto simp: sellers_handler_defs fetchSellers_def Let_def
        split: option.splits prod.splits if_splits)+

text \<open>
  A request that is still the latest when it fails, and that no event settled in
  between, finds the page it asked for still current; the failure then shows the
  message, puts back the page it captured and ends the loading state.
\<close>

lemma sellers_reject_reverts:
  assumes rq: "requestId rq = latestRequestRef s1"
    and page1: "currentPage s1 = pageToFetch rq"
    and run: "sellers_run es s1 = (s2, rs)"
    and latest: "latestRequestRef s2 = requestId rq"
    and pending: "\<forall>e\<in>set es. \<not> settles (requestId rq) e"
  shows "error (fst (sellers_step (FetchRejected rq) s2))
           = Some ''Nao foi possivel carregar os vendedores.''"
    and "currentPage (fst (sellers_step (FetchRejected rq) s2)) = previousPage rq"
    and "\<not> isLoading (fst (sellers_step (FetchRejected rq) s2))"
proof -
  from sellers_run_counter [OF run] latest rq have none: "rs = []"
    by simp
  have "currentPage s2 = currentPage s1"
    using run pending by (auto simp: none rq intro: sellers_run_page)
  with page1 have page2: "currentPage s2 = pageToFetch rq"
    by simp
  show "error (fst (sellers_step (FetchRejected rq) s2))
          = Some ''Nao foi possivel carregar os vendedores.''"
    using latest by (simp add: sellers_step_def fetchSellers_rejected_def Let_def)
  show "currentPage (fst (sellers_step (FetchRejected rq) s2)) = previousPage rq"
    using latest page2 by (simp add: sellers_step_def fetchSellers_rejected_def Let_def)
  show "\<not> isLoading (fst (sellers_step (FetchRejected rq) s2))"
    using latest by (simp add: sellers_step_def fetchSellers_rejected_def Let_def)
qed

lemma fetchAppointments_call:
  "snd (fetchAppointments cp sel optPage optStatus a) =
     \<lparr>pageToFetch = (case optPage of Some p \<Rightarrow> p | None \<Rightarrow> cp), previousPage = cp,
      statusFilter = (case optStatus of Some t \<Rightarrow> t | None \<Rightarrow> sel)\<rparr>"
  by (simp add: fetchAppointments_def Let_def)

lemma fetchAppointments_state:
  "fst (fetchAppointments cp sel optPage optStatus a) =
     (if (case optPage of Some p \<Rightarrow> p | None \<Rightarrow> cp) \<noteq> cp
      then a\<lparr>currentPage := (case optPage of Some p \<Rightarrow> p | None \<Rightarrow> cp)\<rparr> else a)
     \<lparr>isLoading := True, error := None\<rparr>"
  by (simp add: fetchAppointments_def Let_def)

text \<open>
  A fetch started from the render that is current puts the page back when it fails
  as the latest one. On the sellers page the fetch is started by any event whose
  handler saw the current page (every user action and the debounce timer), any
  events that neither issue nor settle a request may happen while it is in flight,
  and the failure arrives while its request number is still the latest. On the
  appointments page every failure of a fetch started from the current page puts
  that page back. In particular a failed page change to \<open>n\<close> leaves the page at
  the value before the call, which is not \<open>n\<close>.
\<close>

lemma fresh_fetch_failure_reverts_page:
  assumes issue: "sellers_step e s = (s1, [rq])" and fresh: "closure_current s e"
    and run: "sellers_run es s1 = (s2, rs)"
    and latest: "latestRequestRef s2 = requestId rq"
    and pending: "\<forall>x\<in>set es. \<not> settles (requestId rq) x"
    and issue': "fetchAppointments (currentPage a) sel optPage optStatus a = (a1, rq')"
  shows "error (fst (sellers_step (FetchRejected rq) s2))
           = Some ''Nao foi possivel carregar os vendedores.''
       \<and> currentPage (fst (sellers_step (FetchRejected rq) s2)) = currentPage s
       \<and> (e = PageChange n \<longrightarrow>
            currentPage s1 = n \<and> currentPage (fst (sellers_step (FetchRejected rq) s2)) \<noteq> n)
       \<and> error (fetchAppointments_rejected rq' a2) = Some ''Nao foi possivel carregar as calls.''
       \<and> currentPage (fetchAppointments_rejected rq' a2) = currentPage a
       \<and> (appointments_handlePageChange n' a = (a1, [rq']) \<longrightarrow>
            currentPage a1 = n' \<and> currentPage (fetchAppointments_rejected rq' a2) \<noteq> n')"
proof -
  obtain t where handled: "sellers_handle e s = (t, [rq])" and s1: "s1 = debounceEffect s t"
    using issue by (auto simp: sellers_step_def split: prod.splits)
  have rq: "requestId rq = latestRequestRef s1" and prev: "previousPage rq = currentPage s"
    and page1: "currentPage s1 = pageToFetch rq"
    using sellers_handle_issue [OF handled fresh] by (simp_all add: s1)
  note reverted = sellers_reject_reverts [OF rq page1 run latest pending]
  have asked: "pageToFetch rq = n" "n \<noteq> currentPage s" if "e = PageChange n"
    using handled that
    by (auto simp: sellers_handlePageChange_def fetchSellers_def Let_def split: if_splits)
  have rq': "previousPage rq' = currentPage a"
    using issue' fetchAppointments_call [of "currentPage a" sel optPage optStatus a] by simp
  have asked': "currentPage a1 = n'" "n' \<noteq> currentPage a"
    if "appointments_handlePageChange n' a = (a1, [rq'])"
    using that
    by (auto simp: appointments_handlePageChange_def fetchAppointments_def Let_def
        split: if_splits)
  show ?thesis
    using reverted prev page1 asked rq' asked'
    by (auto simp: fetchAppointments_rejected_def)
qed

text \<open>
  C2. A fetch that fails while it is still the latest one has to show an error
  message and put the current page back to the value it had before the fetch began.
  The message is shown, and the page is put back when the fetch was started from
  the current render (\<open>fresh_fetch_failure_reverts_page\<close>). The fetch that
  follows a saved form is started from the render in which the form was submitted,
  and the page it puts back is the page of that render. Below, both pages show
  page 2 and the user asks for the next page, opens the form for a new entry and
  submits it while page 3 is loading. The request for page 3 fails and the page
  goes back to 2. Then the entry is saved and the list is fetched again; that fetch
  begins with the current page 2, is the latest one, and fails: the page it leaves
  is 3, a page that was never loaded, with the rows of page 2 on the screen.
\<close>

theorem failed_refetch_leaves_unloaded_page:
  "sellers_run
      [FetchResolved (snd sellers_mounted)
         \<lparr>resp_data = [1, 2 :: nat], resp_total = 120, resp_page = Some 1\<rparr>,
       NextPage,
       FetchResolved \<lparr>pageToFetch = 2, previousPage = 1, requestId = 2, searchTerm = ''''\<rparr>
         \<lparr>resp_data = [3, 4], resp_total = 120, resp_page = Some 2\<rparr>,
       NextPage, OpenModal None, SubmitStart]
      (fst sellers_mounted)
     = (\<lparr>total_count = 120, currentPage = 3, isLoading = True, error = None,
         isModalOpen = True, sellers = [3, 4], search = '''', lastFetchedSearch = '''',
         editingSellerId = None, sellerPendingDeletion = None, isDeleting = False,
         latestRequestRef = 3, delay = None\<rparr>,
        [\<lparr>pageToFetch = 2, previousPage = 1, requestId = 2, searchTerm = ''''\<rparr>,
         \<lparr>pageToFetch = 3, previousPage = 2, requestId = 3, searchTerm = ''''\<rparr>])
   \<and> sellers_step
        (FetchRejected \<lparr>pageToFetch = 3, previousPage = 2, requestId = 3, searchTerm = ''''\<rparr>)
        \<lparr>total_count = 120, currentPage = 3, isLoading = True, error = None,
         isModalOpen = True, sellers = [3, 4 :: nat], search = '''', lastFetchedSearch = '''',
         editingSellerId = None, sellerPendingDeletion = None, isDeleting = False,
         latestRequestRef = 3, delay = None\<rparr>
     = (\<lparr>total_count = 120, currentPage = 2, isLoading = False,
         error = Some ''Nao foi possivel carregar os vendedores.'',
         isModalOpen = True, sellers = [3, 4], search = '''', lastFetchedSearch = '''',
         editingSellerId = None, sellerPendingDeletion = None, isDeleting = False,
         latestRequestRef = 3, delay = None\<rparr>, [])
   \<and> sellers_step
        (SubmitSaved
           \<lparr>total_count = 120, currentPage = 3, isLoading = True, error = None,
            isModalOpen = True, sellers = [3, 4 :: nat], search = '''', lastFetchedSearch = '''',
            editingSellerId = None, sellerPendingDeletion = None, isDeleting = False,
            latestRequestRef = 3, delay = None\<rparr>)
        \<lparr>total_count = 120, currentPage = 2, isLoading = False,
         error = Some ''Nao foi possivel carregar os vendedores.'',
         isModalOpen = True, sellers = [3, 4 :: nat], search = '''', lastFetchedSearch = '''',
         editingSellerId = None, sellerPendingDeletion = None, isDeleting = False,
         latestRequestRef = 3, delay = None\<rparr>
     = (\<lparr>total_count = 120, currentPage = 1, isLoading = True, error = None,
         isModalOpen = False, sellers = [3, 4], search = '''', lastFetchedSearch = '''',
         editingSellerId = None, sellerPendingDeletion = None, isDeleting = False,
         latestRequestRef = 4, delay = None\<rparr>,
        [\<lparr>pageToFetch = 1, previousPage = 3, requestId = 4, searchTerm = ''''\<rparr>])
   \<and> sellers_step
        (FetchRejected \<lparr>pageToFetch = 1, previousPage = 3, requestId = 4, searchTerm = ''''\<rparr>)
        \<lparr>total_count = 120, currentPage = 1, isLoading = True, error = None,
         isModalOpen = False, sellers = [3, 4 :: nat], search = '''', lastFetchedSearch = '''',
         editingSellerId = None, sellerPendingDeletion = None, isDeleting = False,
         latestRequestRef = 4, delay = None\<rparr>
     = (\<lparr>total_count = 120, currentPage = 3, isLoading = False,
         error = Some ''Nao foi possivel carregar os vendedores.'',
         isModalOpen = False, sellers = [3, 4], search = '''', lastFetchedSearch = '''',
         editingSellerId = None, sellerPendingDeletion = None, isDeleting = False,
         latestRequestRef = 4, delay = None\<rparr>, [])
   \<and> appointments_run
        [Loaded (snd appointments_mounted)
           \<lparr>resp_data = [1, 2 :: nat], resp_total = 45, resp_page = Some 1\<rparr>,
         GoNext,
         Loaded \<lparr>pageToFetch = 2, previousPage = 1, statusFilter = ''''\<rparr>
           \<lparr>resp_data = [3, 4], resp_total = 45, resp_page = Some 2\<rparr>,
         GoNext, ModalOpened None]
        (fst appointments_mounted)
     = (\<lparr>total_count = 45, currentPage = 3, isLoading = True, error = None,
         isModalOpen = True, appointments = [3, 4], selectedStatus = '''',
         editingAppointmentId = None, appointmentPendingDeletion = None,
         isDeletingAppointment = False\<rparr>,
        [\<lparr>pageToFetch = 2, previousPage = 1, statusFilter = ''''\<rparr>,
         \<lparr>pageToFetch = 3, previousPage = 2, statusFilter = ''''\<rparr>])
   \<and> appointments_step
        (LoadFailed \<lparr>pageToFetch = 3, previousPage = 2, statusFilter = ''''\<rparr>)
        \<lparr>total_count = 45, currentPage = 3, isLoading = True, error = None,
         isModalOpen = True, appointments = [3, 4 :: nat], selectedStatus = '''',
         editingAppointmentId = None, appointmentPendingDeletion = None,
         isDeletingAppointment = False\<rparr>
     = (\<lparr>total_count = 45, currentPage = 2, isLoading = False,
         error = Some ''Nao foi possivel carregar as calls.'',
         isModalOpen = True, appointments = [3, 4], selectedStatus = '''',
         editingAppointmentId = None, appointmentPendingDeletion = None,
         isDeletingAppointment = False\<rparr>, [])
   \<and> appointments_step
        (Saved
           \<lparr>total_count = 45, currentPage = 3, isLoading = True, error = None,
            isModalOpen = True, appointments = [3, 4 :: nat], selectedStatus = '''',
            editingAppointmentId = None, appointmentPendingDeletion = None,
            isDeletingAppointment = False\<rparr>)
        \<lparr>total_count = 45, currentPage = 2, isLoading = False,
         error = Some ''Nao foi possivel carregar as calls.'',
         isModalOpen = True, appointments = [3, 4 :: nat], selectedStatus = '''',
         editingAppointmentId = None, appointmentPendingDeletion = None,
         isDeletingAppointment = False\<rparr>
     = (\<lparr>total_count = 45, currentPage = 2, isLoading = True, error = None,
         isModalOpen = False, appointments = [3, 4], selectedStatus = '''',
         editingAppointmentId = None, appointmentPendingDeletion = None,
         isDeletingAppointment = False\<rparr>,
        [\<lparr>pageToFetch = 3, previousPage = 3, statusFilter = ''''\<rparr>])
   \<and> appointments_step
        (LoadFailed \<lparr>pageToFetch = 3, previousPage = 3, statusFilter = ''''\<rparr>)
        \<lparr>total_count = 45, currentPage = 2, isLoading = True, error = None,
         isModalOpen = False, appointments = [3, 4 :: nat], selectedStatus = '''',
         editingAppointmentId = None, appointmentPendingDeletion = None,
         isDeletingAppointment = False\<rparr>
     = (\<lparr>total_count = 45, currentPage = 3, isLoading = False,
         error = Some ''Nao foi possivel carregar as calls.'',
         isModalOpen = False, appointments = [3, 4], selectedStatus = '''',
         editingAppointmentId = None, appointmentPendingDeletion = None,
         isDeletingAppointment = False\<rparr>, [])"
proof -
  have sellers_shown: "sellers_run
      [FetchResolved (snd sellers_mounted)
         \<lparr>resp_data = [1, 2 :: nat], resp_total = 120, resp_page = Some 1\<rparr>,
       NextPage,
       FetchResolved \<lparr>pageToFetch = 2, previousPage = 1, requestId = 2, searchTerm = ''''\<rparr>
         \<lparr>resp_data = [3, 4], resp_total = 120, resp_page = Some 2\<rparr>,
       NextPage, OpenModal None, SubmitStart]
      (fst sellers_mounted)
     = (\<lparr>total_count = 120, currentPage = 3, isLoading = True, error = None,
         isModalOpen = True, sellers = [3, 4], search = '''', lastFetchedSearch = '''',
         editingSellerId = None, sellerPendingDeletion = None, isDeleting = False,
         latestRequestRef = 3, delay = None\<rparr>,
        [\<lparr>pageToFetch = 2, previousPage = 1, requestId = 2, searchTerm = ''''\<rparr>,
         \<lparr>pageToFetch = 3, previousPage = 2, requestId = 3, searchTerm = ''''\<rparr>])"
    by (simp add: sellers_mounted_def sellers_initial_def sellers_step_def
        fetchSellers_def fetchSellers_resolved_def debounceEffect_def isSearchDirty_def
        sellers_handleNextPage_def canGoNext_def effectivePage_def js_int_plus_examples
        sellers_handlePageChange_def sellers_openModal_def sellers_handleSubmit_start_def
        totalPages_examples)
  have appointments_shown: "appointments_run
        [Loaded (snd appointments_mounted)
           \<lparr>resp_data = [1, 2 :: nat], resp_total = 45, resp_page = Some 1\<rparr>,
         GoNext,
         Loaded \<lparr>pageToFetch = 2, previousPage = 1, statusFilter = ''''\<rparr>
           \<lparr>resp_data = [3, 4], resp_total = 45, resp_page = Some 2\<rparr>,
         GoNext, ModalOpened None]
        (fst appointments_mounted)
     = (\<lparr>total_count = 45, currentPage = 3, isLoading = True, error = None,
         isModalOpen = True, appointments = [3, 4], selectedStatus = '''',
         editingAppointmentId = None, appointmentPendingDeletion = None,
         isDeletingAppointment = False\<rparr>,
        [\<lparr>pageToFetch = 2, previousPage = 1, statusFilter = ''''\<rparr>,
         \<lparr>pageToFetch = 3, previousPage = 2, statusFilter = ''''\<rparr>])"
    by (simp add: appointments_mounted_def appointments_initial_def fetchAppointments_def
        fetchAppointments_resolved_def appointments_handleNextPage_def canGoNext_def
        effectivePage_def js_int_plus_examples appointments_handlePageChange_def
        appointments_openModal_def totalPages_examples)
  show ?thesis
    unfolding sellers_shown appointments_shown
    by (simp add: sellers_step_def fetchSellers_def fetchSellers_rejected_def
        debounceEffect_def isSearchDirty_def sellers_handleSubmit_saved_def truthy_def
        fetchAppointments_def fetchAppointments_rejected_def
        appointments_handleSubmit_saved_def)
qed

text \<open>
  C1. Results of superseded requests must not reach the screen: after overlapping
  fetches the list, the total and the page are those of the request issued last.
  The sellers page does this (\<open>superseded_completions_discarded\<close>,
  \<open>latest_sellers_response_applied\<close>). The appointments page has no request
  number and applies every response. Below, the mounted page has loaded three
  calls; the user picks the status filter AGENDADA and then NO_SHOW before the
  first response is in; the response for NO_SHOW (two calls) arrives first and the
  one for AGENDADA (one call) second. The page ends up showing the AGENDADA result
  under the NO_SHOW filter.
\<close>

theorem stale_appointments_response_applied:
  "snd (onStatusChange ''AGENDADA''
      (fetchAppointments_resolved (snd appointments_mounted)
         \<lparr>resp_data = [1, 2, 3 :: nat], resp_total = 3, resp_page = Some 1\<rparr>
         (fst appointments_mounted)))
     = \<lparr>pageToFetch = 1, previousPage = 1, statusFilter = ''AGENDADA''\<rparr>
   \<and> snd (onStatusChange ''NO_SHOW'' (fst (onStatusChange ''AGENDADA''
      (fetchAppointments_resolved (snd appointments_mounted)
         \<lparr>resp_data = [1, 2, 3 :: nat], resp_total = 3, resp_page = Some 1\<rparr>
         (fst appointments_mounted)))))
     = \<lparr>pageToFetch = 1, previousPage = 1, statusFilter = ''NO_SHOW''\<rparr>
   \<and> fetchAppointments_resolved
        \<lparr>pageToFetch = 1, previousPage = 1, statusFilter = ''AGENDADA''\<rparr>
        \<lparr>resp_data = [1], resp_total = 1, resp_page = Some 1\<rparr>
        (fetchAppointments_resolved
           \<lparr>pageToFetch = 1, previousPage = 1, statusFilter = ''NO_SHOW''\<rparr>
           \<lparr>resp_data = [2, 3], resp_total = 2, resp_page = Some 1\<rparr>
           (fst (onStatusChange ''NO_SHOW'' (fst (onStatusChange ''AGENDADA''
              (fetchAppointments_resolved (snd appointments_mounted)
                 \<lparr>resp_data = [1, 2, 3 :: nat], resp_total = 3, resp_page = Some 1\<rparr>
                 (fst appointments_mounted)))))))
     = \<lparr>total_count = 1, currentPage = 1, isLoading = False, error = None,
        isModalOpen = False, appointments = [1], selectedStatus = ''NO_SHOW'',
        editingAppointmentId = None, appointmentPendingDeletion = None,
        isDeletingAppointment = False\<rparr>"
  by (simp add: appointments_mounted_def appointments_initial_def onStatusChange_def
      fetchAppointments_def fetchAppointments_resolved_def)

section \<open>The debounced search of the sellers page\<close>

lemma sellers_run_append:
  "sellers_run (es @ fs) s =
     (let (s1, rs1) = sellers_run es s; (s2, rs2) = sellers_run fs s1 in (s2, rs1 @ rs2))"
  by (induction es arbitrary: s) (simp_all add: split_def Let_def)

lemma sellers_step_SearchChange:
  "sellers_step (SearchChange v) s =
     (s\<lparr>search := v, error := None, isLoading := True,
        delay := (if v = search s then delay s
                  else if v \<noteq> lastFetchedSearch s then Some (300, v) else None)\<rparr>, [])"
  by (cases s) (simp add: sellers_step_def handleSearchChange_def debounceEffect_def
      isSearchDirty_def)

lemma sellers_step_Tick_idle:
  "delay s = None \<Longrightarrow> sellers_step Tick s = (s, [])"
  by (simp add: sellers_step_def timerTick_def debounceEffect_def)

lemma sellers_step_Tick_wait:
  "delay s = Some (r, t) \<Longrightarrow> 1 < r \<Longrightarrow>
     sellers_step Tick s = (s\<lparr>delay := Some (r - 1, t)\<rparr>, [])"
  by (simp add: sellers_step_def timerTick_def debounceEffect_def)

lemma sellers_step_Tick_fire:
  "delay s = Some (r, t) \<Longrightarrow> r \<le> 1 \<Longrightarrow>
     sellers_step Tick s =
       (s\<lparr>currentPage := 1, latestRequestRef := Suc (latestRequestRef s),
          isLoading := True, error := None,
          delay := (if currentPage s \<noteq> 1 \<and> search s \<noteq> lastFetchedSearch s
                    then Some (300, search s) else None)\<rparr>,
        [\<lparr>pageToFetch = 1, previousPage = currentPage s,
          requestId = Suc (latestRequestRef s), searchTerm = t\<rparr>])"
  by (cases s) (simp add: sellers_step_def timerTick_def debounceEffect_def fetchSellers_def
      isSearchDirty_def)

lemma sellers_run_ticks_idle:
  "delay s = None \<Longrightarrow> sellers_run (replicate n Tick) s = (s, [])"
  by (induction n) (simp_all add: sellers_step_Tick_idle)

lemma sellers_run_ticks_wait:
  "delay s = Some (r, t) \<Longrightarrow> n < r \<Longrightarrow>
     sellers_run (replicate n Tick) s = (s\<lparr>delay := Some (r - n, t)\<rparr>, [])"
proof (induction n arbitrary: s r)
  case 0
  then show ?case by (cases s) simp
next
  case (Suc n)
  from Suc.prems have step: "sellers_step Tick s = (s\<lparr>delay := Some (r - 1, t)\<rparr>, [])"
    by (simp add: sellers_step_Tick_wait)
  have "sellers_run (replicate n Tick) (s\<lparr>delay := Some (r - 1, t)\<rparr>)
          = (s\<lparr>delay := Some (r - 1, t)\<rparr>\<lparr>delay := Some (r - 1 - n, t)\<rparr>, [])"
    using Suc.prems by (intro Suc.IH) simp_all
  then show ?case
    by (simp add: step)
qed

text \<open>A timeout with \<open>r\<close> units left fires at the \<open>r\<close>-th tick, not before.\<close>

lemma sellers_run_ticks_expire:
  assumes "delay s = Some (r, t)" and "0 < r"
  shows "sellers_run (replicate r Tick) s =
       (s\<lparr>currentPage := 1, latestRequestRef := Suc (latestRequestRef s),
          isLoading := True, error := None,
          delay := (if currentPage s \<noteq> 1 \<and> search s \<noteq> lastFetchedSearch s
                    then Some (300, search s) else None)\<rparr>,
        [\<lparr>pageToFetch = 1, previousPage = currentPage s,
          requestId = Suc (latestRequestRef s), searchTerm = t\<rparr>])"
proof -
  from assms(2) have split: "replicate r Tick = replicate (r - Suc 0) Tick @ [Tick :: 'a sellers_event]"
    by (cases r) (simp_all add: replicate_append_same)
  have waited: "sellers_run (replicate (r - Suc 0) Tick) s = (s\<lparr>delay := Some (Suc 0, t)\<rparr>, [])"
    using sellers_run_ticks_wait [OF assms(1), of "r - 1"] assms(2) by simp
  have fired: "sellers_run [Tick] (s\<lparr>delay := Some (Suc 0, t)\<rparr>) =
       (s\<lparr>currentPage := 1, latestRequestRef := Suc (latestRequestRef s),
          isLoading := True, error := None,
          delay := (if currentPage s \<noteq> 1 \<and> search s \<noteq> lastFetchedSearch s
                    then Some (300, search s) else None)\<rparr>,
        [\<lparr>pageToFetch = 1, previousPage = currentPage s,
          requestId = Suc (latestRequestRef s), searchTerm = t\<rparr>])"
    by (cases s) (simp add: sellers_step_def timerTick_def debounceEffect_def fetchSellers_def
        isSearchDirty_def)
  show ?thesis
    by (simp add: split sellers_run_append waited fired del: sellers_run.simps)
qed

text \<open>
  C9. The search is clean, the user changes the text and, before the debounce timer
  fires, changes it back to the last fetched term. The first change sets the loading
  flag and arms the timer; the second finds the search clean again, so the cleanup
  clears the timer and no new one is armed. No request is issued, and however much
  time passes afterwards the page stays in the loading state with no timer pending.
\<close>

theorem loading_stuck_after_search_restored:
  assumes clean: "search s = lastFetchedSearch s" and changed: "v \<noteq> search s"
    and early: "d < 300"
  shows "sellers_step (SearchChange v) s
           = (s\<lparr>search := v, error := None, isLoading := True, delay := Some (300, v)\<rparr>, [])
       \<and> sellers_run (SearchChange v # replicate d Tick @ SearchChange (search s)
                        # replicate n Tick) s
           = (s\<lparr>error := None, isLoading := True, delay := None\<rparr>, [])
       \<and> isLoading (fst (sellers_run (SearchChange v # replicate d Tick
                        @ SearchChange (search s) # replicate n Tick) s))
       \<and> delay (fst (sellers_run (SearchChange v # replicate d Tick
                        @ SearchChange (search s) # replicate n Tick) s)) = None"
proof -
  let ?s1 = "s\<lparr>search := v, error := None, isLoading := True, delay := Some (300, v)\<rparr>"
  let ?s2 = "s\<lparr>search := v, error := None, isLoading := True, delay := Some (300 - d, v)\<rparr>"
  let ?s3 = "s\<lparr>error := None, isLoading := True, delay := None\<rparr>"
  have typed: "sellers_step (SearchChange v) s = (?s1, [])"
    using clean changed by (simp add: sellers_step_SearchChange)
  have wait: "sellers_run (replicate d Tick) ?s1 = (?s2, [])"
    using early sellers_run_ticks_wait [of ?s1 300 v d] by simp
  have restored: "sellers_step (SearchChange (search s)) ?s2 = (?s3, [])"
    using clean changed by (cases s) (simp add: sellers_step_SearchChange)
  have idle: "sellers_run (replicate n Tick) ?s3 = (?s3, [])"
    by (intro sellers_run_ticks_idle) simp
  have rest: "sellers_run (SearchChange (search s) # replicate n Tick) ?s2 = (?s3, [])"
    by (simp add: restored idle)
  have whole: "sellers_run (SearchChange v # replicate d Tick @ SearchChange (search s)
                 # replicate n Tick) s = (?s3, [])"
    by (simp add: typed sellers_run_append wait rest restored idle)
  show ?thesis
    by (simp add: typed whole del: sellers_run.simps)
qed

theorem loading_stuck_after_search_restored_witness:
  "search \<lparr>total_count = 120, currentPage = 1, isLoading = False, error = None,
       isModalOpen = False, sellers = [1, 2 :: nat], search = ''ana'',
       lastFetchedSearch = ''ana'', editingSellerId = None, sellerPendingDeletion = None,
       isDeleting = False, latestRequestRef = 4, delay = None\<rparr> = ''ana''
   \<and> ''an'' \<noteq> ''ana'' \<and> (100::nat) < 300
   \<and> sellers_run (SearchChange ''an'' # replicate 100 Tick @ SearchChange ''ana''
                    # replicate 1000 Tick)
        \<lparr>total_count = 120, currentPage = 1, isLoading = False, error = None,
         isModalOpen = False, sellers = [1, 2 :: nat], search = ''ana'',
         lastFetchedSearch = ''ana'', editingSellerId = None, sellerPendingDeletion = None,
         isDeleting = False, latestRequestRef = 4, delay = None\<rparr>
     = (\<lparr>total_count = 120, currentPage = 1, isLoading = True, error = None,
         isModalOpen = False, sellers = [1, 2], search = ''ana'',
         lastFetchedSearch = ''ana'', editingSellerId = None, sellerPendingDeletion = None,
         isDeleting = False, latestRequestRef = 4, delay = None\<rparr>, [])"
proof -
  let ?s = "\<lparr>total_count = 120, currentPage = 1, isLoading = False, error = None,
       isModalOpen = False, sellers = [1, 2 :: nat], search = ''ana'',
       lastFetchedSearch = ''ana'', editingSellerId = None, sellerPendingDeletion = None,
       isDeleting = False, latestRequestRef = 4, delay = None\<rparr>"
  have clean: "search ?s = lastFetchedSearch ?s" and changed: "''an'' \<noteq> search ?s"
    and early: "(100::nat) < 300"
    by simp_all
  show ?thesis
    using loading_stuck_after_search_restored [OF clean changed early, of 1000]
    by (simp del: sellers_run.simps)
qed

text \<open>
  Within the quiet period the debounce does what it is meant to do. After a burst
  of changes, each altering the text less than 300 units after the one before, and
  300 units without a change, exactly one request has been issued, for page 1 and
  the final text, and none at all when the final text is the last fetched term. No
  response arrives during the burst.
\<close>

lemma keystrokes_quiet:
  assumes "within_window (search s) calls" and "calls \<noteq> []"
  shows "snd (sellers_run (keystrokes calls) s) = []
       \<and> search (fst (sellers_run (keystrokes calls) s)) = fst (last calls)
       \<and> delay (fst (sellers_run (keystrokes calls) s))
           = (if fst (last calls) \<noteq> lastFetchedSearch s
              then Some (300 - snd (last calls), fst (last calls)) else None)
       \<and> currentPage (fst (sellers_run (keystrokes calls) s)) = currentPage s
       \<and> lastFetchedSearch (fst (sellers_run (keystrokes calls) s)) = lastFetchedSearch s
       \<and> latestRequestRef (fst (sellers_run (keystrokes calls) s)) = latestRequestRef s"
  using assms
proof (induction calls arbitrary: s)
  case Nil
  then show ?case by simp
next
  case (Cons call rest)
  obtain v d where call: "call = (v, d)"
    by (cases call)
  from Cons.prems call have v: "v \<noteq> search s" and d: "d < 300"
    and window: "within_window v rest"
    by simp_all
  let ?s1 = "s\<lparr>search := v, error := None, isLoading := True,
                delay := (if v \<noteq> lastFetchedSearch s then Some (300, v) else None)\<rparr>"
  let ?s2 = "s\<lparr>search := v, error := None, isLoading := True,
                delay := (if v \<noteq> lastFetchedSearch s then Some (300 - d, v) else None)\<rparr>"
  have typed: "sellers_step (SearchChange v) s = (?s1, [])"
    using v by (simp add: sellers_step_SearchChange)
  have waited: "sellers_run (replicate d Tick) ?s1 = (?s2, [])"
  proof (cases "v = lastFetchedSearch s")
    case True
    then show ?thesis
      using sellers_run_ticks_idle [of ?s1 d] by simp
  next
    case False
    then show ?thesis
      using d sellers_run_ticks_wait [of ?s1 300 v d] by simp
  qed
  have whole: "sellers_run (keystrokes (call # rest)) s
      = (fst (sellers_run (keystrokes rest) ?s2), snd (sellers_run (keystrokes rest) ?s2))"
    by (simp add: call typed sellers_run_append waited split_def)
  have run_fst: "fst (sellers_run (keystrokes (call # rest)) s)
      = fst (sellers_run (keystrokes rest) ?s2)"
    and run_snd: "snd (sellers_run (keystrokes (call # rest)) s)
      = snd (sellers_run (keystrokes rest) ?s2)"
    by (simp_all only: whole fst_conv snd_conv)
  show ?case
  proof (cases "rest = []")
    case True
    show ?thesis
      by (simp only: run_fst run_snd) (simp add: True call)
  next
    case False
    from window have "within_window (search ?s2) rest"
      by simp
    note rest_run = Cons.IH [OF this False]
    show ?thesis
      by (simp only: run_fst run_snd) (use rest_run False in simp)
  qed
qed

lemma debounce_single_fetch:
  assumes burst: "within_window (search s) calls"
    and final: "v \<noteq> (if calls = [] then search s else fst (last calls))"
  shows "snd (sellers_run (keystrokes calls @ SearchChange v # replicate 300 Tick) s)
       = (if v = lastFetchedSearch s then []
          else [\<lparr>pageToFetch = 1, previousPage = currentPage s,
                 requestId = Suc (latestRequestRef s), searchTerm = v\<rparr>])"
proof -
  let ?t = "fst (sellers_run (keystrokes calls) s)"
  have quiet: "snd (sellers_run (keystrokes calls) s) = []"
    and typed_text: "search ?t = (if calls = [] then search s else fst (last calls))"
    and same: "currentPage ?t = currentPage s" "lastFetchedSearch ?t = lastFetchedSearch s"
      "latestRequestRef ?t = latestRequestRef s"
    using keystrokes_quiet [OF burst] by (cases "calls = []"; simp)+
  let ?t1 = "?t\<lparr>search := v, error := None, isLoading := True,
                delay := (if v \<noteq> lastFetchedSearch s then Some (300, v) else None)\<rparr>"
  have typed: "sellers_step (SearchChange v) ?t = (?t1, [])"
    using final typed_text same by (simp add: sellers_step_SearchChange)
  have expired: "snd (sellers_run (replicate 300 Tick) ?t1)
       = (if v = lastFetchedSearch s then []
          else [\<lparr>pageToFetch = 1, previousPage = currentPage s,
                 requestId = Suc (latestRequestRef s), searchTerm = v\<rparr>])"
  proof (cases "v = lastFetchedSearch s")
    case True
    then show ?thesis
      using sellers_run_ticks_idle [of ?t1 300] by simp
  next
    case False
    then show ?thesis
      using sellers_run_ticks_expire [of ?t1 300 v] same by simp
  qed
  have "sellers_run (keystrokes calls @ SearchChange v # replicate 300 Tick) s
      = (fst (sellers_run (replicate 300 Tick) ?t1), snd (sellers_run (replicate 300 Tick) ?t1))"
    using quiet by (simp add: sellers_run_append typed split_def)
  then show ?thesis
    by (simp add: expired)
qed

text \<open>
  C4. A burst of changes to the search text is to trigger exactly one fetch, for
  page 1 and the final text. The timer callback does issue that fetch, but when the
  current page is not 1 the fetch sets the page to 1, which changes the identity of
  \<open>fetchSellers\<close>, a dependency of the debounce effect; the effect runs again, the
  search is still dirty (the response is not in yet) and a second timeout is armed.
  Below, the mounted page has loaded 120 sellers and moved to page 3. The user types
  \<open>a\<close> once. After 300 units the request number 3 is issued and the timer is armed
  again; with no response after another 300 units the same fetch is issued once
  more as request number 4. When the first of them fails instead, the page goes
  back to 3, the timer is armed again and the fetch is repeated 300 units later.
\<close>

theorem debounce_timer_rearmed_after_page_reset:
  "sellers_run
      [FetchResolved (snd sellers_mounted)
         \<lparr>resp_data = [1, 2 :: nat], resp_total = 120, resp_page = Some 1\<rparr>,
       PageChange 3,
       FetchResolved \<lparr>pageToFetch = 3, previousPage = 1, requestId = 2, searchTerm = ''''\<rparr>
         \<lparr>resp_data = [5, 6], resp_total = 120, resp_page = Some 3\<rparr>]
      (fst sellers_mounted)
     = (\<lparr>total_count = 120, currentPage = 3, isLoading = False, error = None,
         isModalOpen = False, sellers = [5, 6], search = '''', lastFetchedSearch = '''',
         editingSellerId = None, sellerPendingDeletion = None, isDeleting = False,
         latestRequestRef = 2, delay = None\<rparr>,
        [\<lparr>pageToFetch = 3, previousPage = 1, requestId = 2, searchTerm = ''''\<rparr>])
   \<and> sellers_run (SearchChange ''a'' # replicate 300 Tick)
        \<lparr>total_count = 120, currentPage = 3, isLoading = False, error = None,
         isModalOpen = False, sellers = [5, 6 :: nat], search = '''', lastFetchedSearch = '''',
         editingSellerId = None, sellerPendingDeletion = None, isDeleting = False,
         latestRequestRef = 2, delay = None\<rparr>
     = (\<lparr>total_count = 120, currentPage = 1, isLoading = True, error = None,
         isModalOpen = False, sellers = [5, 6], search = ''a'', lastFetchedSearch = '''',
         editingSellerId = None, sellerPendingDeletion = None, isDeleting = False,
         latestRequestRef = 3, delay = Some (300, ''a'')\<rparr>,
        [\<lparr>pageToFetch = 1, previousPage = 3, requestId = 3, searchTerm = ''a''\<rparr>])
   \<and> sellers_run (replicate 300 Tick)
        \<lparr>total_count = 120, currentPage = 1, isLoading = True, error = None,
         isModalOpen = False, sellers = [5, 6 :: nat], search = ''a'', lastFetchedSearch = '''',
         editingSellerId = None, sellerPendingDeletion = None, isDeleting = False,
         latestRequestRef = 3, delay = Some (300, ''a'')\<rparr>
     = (\<lparr>total_count = 120, currentPage = 1, isLoading = True, error = None,
         isModalOpen = False, sellers = [5, 6], search = ''a'', lastFetchedSearch = '''',
         editingSellerId = None, sellerPendingDeletion = None, isDeleting = False,
         latestRequestRef = 4, delay = None\<rparr>,
        [\<lparr>pageToFetch = 1, previousPage = 1, requestId = 4, searchTerm = ''a''\<rparr>])
   \<and> snd (sellers_run (SearchChange ''a'' # replicate 600 Tick)
        \<lparr>total_count = 120, currentPage = 3, isLoading = False, error = None,
         isModalOpen = False, sellers = [5, 6 :: nat], search = '''', lastFetchedSearch = '''',
         editingSellerId = None, sellerPendingDeletion = None, isDeleting = False,
         latestRequestRef = 2, delay = None\<rparr>)
     = [\<lparr>pageToFetch = 1, previousPage = 3, requestId = 3, searchTerm = ''a''\<rparr>,
        \<lparr>pageToFetch = 1, previousPage = 1, requestId = 4, searchTerm = ''a''\<rparr>]
   \<and> snd (sellers_run
        (FetchRejected \<lparr>pageToFetch = 1, previousPage = 3, requestId = 3, searchTerm = ''a''\<rparr>
           # replicate 300 Tick)
        \<lparr>total_count = 120, currentPage = 1, isLoading = True, error = None,
         isModalOpen = False, sellers = [5, 6 :: nat], search = ''a'', lastFetchedSearch = '''',
         editingSellerId = None, sellerPendingDeletion = None, isDeleting = False,
         latestRequestRef = 3, delay = Some (300, ''a'')\<rparr>)
     = [\<lparr>pageToFetch = 1, previousPage = 3, requestId = 4, searchTerm = ''a''\<rparr>]"
proof -
  let ?s3 = "\<lparr>total_count = 120, currentPage = 3, isLoading = False, error = None,
         isModalOpen = False, sellers = [5, 6 :: nat], search = '''', lastFetchedSearch = '''',
         editingSellerId = None, sellerPendingDeletion = None, isDeleting = False,
         latestRequestRef = 2, delay = None\<rparr>"
  let ?typed = "\<lparr>total_count = 120, currentPage = 3, isLoading = True, error = None,
         isModalOpen = False, sellers = [5, 6 :: nat], search = ''a'', lastFetchedSearch = '''',
         editingSellerId = None, sellerPendingDeletion = None, isDeleting = False,
         latestRequestRef = 2, delay = Some (300, ''a'')\<rparr>"
  let ?s4 = "\<lparr>total_count = 120, currentPage = 1, isLoading = True, error = None,
         isModalOpen = False, sellers = [5, 6 :: nat], search = ''a'', lastFetchedSearch = '''',
         editingSellerId = None, sellerPendingDeletion = None, isDeleting = False,
         latestRequestRef = 3, delay = Some (300, ''a'')\<rparr>"
  let ?s5 = "\<lparr>total_count = 120, currentPage = 1, isLoading = True, error = None,
         isModalOpen = False, sellers = [5, 6 :: nat], search = ''a'', lastFetchedSearch = '''',
         editingSellerId = None, sellerPendingDeletion = None, isDeleting = False,
         latestRequestRef = 4, delay = None\<rparr>"
  let ?failed = "\<lparr>total_count = 120, currentPage = 3, isLoading = False,
         error = Some ''Nao foi possivel carregar os vendedores.'',
         isModalOpen = False, sellers = [5, 6 :: nat], search = ''a'', lastFetchedSearch = '''',
         editingSellerId = None, sellerPendingDeletion = None, isDeleting = False,
         latestRequestRef = 3, delay = Some (300, ''a'')\<rparr>"
  let ?rq3 = "\<lparr>pageToFetch = 1, previousPage = 3, requestId = 3, searchTerm = ''a''\<rparr>"
  let ?rq4 = "\<lparr>pageToFetch = 1, previousPage = 1, requestId = 4, searchTerm = ''a''\<rparr>"
  have loaded: "sellers_run
      [FetchResolved (snd sellers_mounted)
         \<lparr>resp_data = [1, 2 :: nat], resp_total = 120, resp_page = Some 1\<rparr>,
       PageChange 3,
       FetchResolved \<lparr>pageToFetch = 3, previousPage = 1, requestId = 2, searchTerm = ''''\<rparr>
         \<lparr>resp_data = [5, 6], resp_total = 120, resp_page = Some 3\<rparr>]
      (fst sellers_mounted)
     = (?s3, [\<lparr>pageToFetch = 3, previousPage = 1, requestId = 2, searchTerm = ''''\<rparr>])"
    by (simp add: sellers_mounted_def sellers_initial_def sellers_step_def
        fetchSellers_def fetchSellers_resolved_def debounceEffect_def isSearchDirty_def
        sellers_handlePageChange_def totalPages_examples)
  have typed: "sellers_step (SearchChange ''a'') ?s3 = (?typed, [])"
    by (simp add: sellers_step_SearchChange)
  have first_fetch: "sellers_run (replicate 300 Tick) ?typed = (?s4, [?rq3])"
    using sellers_run_ticks_expire [of ?typed 300 "''a''"] by simp
  have second_fetch: "sellers_run (replicate 300 Tick) ?s4 = (?s5, [?rq4])"
    using sellers_run_ticks_expire [of ?s4 300 "''a''"] by simp
  have burst: "sellers_run (SearchChange ''a'' # replicate 300 Tick) ?s3 = (?s4, [?rq3])"
    by (simp add: typed first_fetch)
  have twice: "replicate 600 Tick = replicate 300 Tick @ replicate 300 (Tick :: nat sellers_event)"
    by (simp add: replicate_add [symmetric])
  have long_wait: "sellers_run (SearchChange ''a'' # replicate 600 Tick) ?s3
      = (?s5, [?rq3, ?rq4])"
    by (simp add: typed twice sellers_run_append first_fetch second_fetch)
  have rejected: "sellers_step (FetchRejected ?rq3) ?s4 = (?failed, [])"
    by (simp add: sellers_step_def fetchSellers_rejected_def debounceEffect_def
        isSearchDirty_def)
  have retried: "snd (sellers_run (replicate 300 Tick) ?failed)
      = [\<lparr>pageToFetch = 1, previousPage = 3, requestId = 4, searchTerm = ''a''\<rparr>]"
    using sellers_run_ticks_expire [of ?failed 300 "''a''"] by simp
  have failure: "snd (sellers_run (FetchRejected ?rq3 # replicate 300 Tick) ?s4)
      = [\<lparr>pageToFetch = 1, previousPage = 3, requestId = 4, searchTerm = ''a''\<rparr>]"
    by (simp add: rejected retried split_def)
  show ?thesis
    by (simp only: loaded burst second_fetch long_wait failure snd_conv simp_thms)
qed

section \<open>Reachable configurations\<close>

lemmas appointments_handler_defs =
  onStatusChange_def appointments_handlePageChange_def appointments_handlePreviousPage_def
  appointments_handleNextPage_def fetchAppointments_resolved_def
  fetchAppointments_rejected_def appointments_openModal_def appointments_closeModal_def
  appointments_handleSubmit_failed_def appointments_handleSubmit_saved_def
  requestDeleteAppointment_def handleCancelDeleteAppointment_def
  handleConfirmDeleteAppointment_start_def handleConfirmDeleteAppointment_failed_def
  handleConfirmDeleteAppointment_deleted_def handleConfirmDeleteAppointment_finally_def

subsection \<open>Page numbers start at 1\<close>

text \<open>
  The current page, the pages of the renders gone through and the pages recorded in
  the requests in flight are all at least 1, and stay so under every event that can
  happen.
\<close>

lemma sellers_handle_pages:
  assumes "sellers_handle e s = (t, rs)" and "sellers_admissible out seen e"
    and "1 \<le> currentPage s"
    and "\<forall>rq\<in>set out. 1 \<le> pageToFetch rq \<and> 1 \<le> previousPage rq"
    and "\<forall>c\<in>set seen. 1 \<le> currentPage c"
  shows "1 \<le> currentPage t \<and> (\<forall>rq\<in>set rs. 1 \<le> pageToFetch rq \<and> 1 \<le> previousPage rq)"
  using assms
  by (cases e)
    (auto simp: sellers_handler_defs fetchSellers_def conforming_def Let_def
      split: option.splits prod.splits if_splits)

lemma sellers_settled_subset: "set (sellers_settled e out) \<subseteq> set out"
  by (cases e) (simp_all add: set_remove1_subset)

lemma sellers_trace_pages:
  assumes "sellers_trace es (s, out, seen) = Some (s', out', seen')"
    and "1 \<le> currentPage s"
    and "\<forall>rq\<in>set out. 1 \<le> pageToFetch rq \<and> 1 \<le> previousPage rq"
    and "\<forall>c\<in>set seen. 1 \<le> currentPage c"
  shows "1 \<le> currentPage s'"
  using assms
proof (induction es arbitrary: s out seen)
  case Nil
  then show ?case by simp
next
  case (Cons e es)
  from Cons.prems(1) have adm: "sellers_admissible out seen e"
    by (simp split: if_splits)
  obtain t rs where handled: "sellers_handle e s = (t, rs)"
    by (cases "sellers_handle e s")
  then have step: "sellers_step e s = (debounceEffect s t, rs)"
    by (simp add: sellers_step_def)
  with Cons.prems(1) adm
  have rest: "sellers_trace es (debounceEffect s t, sellers_settled e out @ rs,
      debounceEffect s t # seen) = Some (s', out', seen')"
    by simp
  from sellers_handle_pages [OF handled adm Cons.prems(2-4)]
  have t: "1 \<le> currentPage t"
    and rs: "\<forall>rq\<in>set rs. 1 \<le> pageToFetch rq \<and> 1 \<le> previousPage rq"
    by simp_all
  have out: "\<forall>rq\<in>set (sellers_settled e out @ rs). 1 \<le> pageToFetch rq \<and> 1 \<le> previousPage rq"
    using rs Cons.prems(3) sellers_settled_subset [of e out] by auto
  show ?case
    by (rule Cons.IH [OF rest]) (use t out Cons.prems(4) in simp_all)
qed

lemma sellers_reachable_page:
  assumes "sellers_trace es sellers_start = Some (s, out, seen)"
  shows "1 \<le> currentPage s"
proof -
  from assms have "sellers_trace es (fst sellers_mounted,
      [snd (sellers_mounted :: 'a sellers_state \<times> sellers_fetch)],
      [fst sellers_mounted]) = Some (s, out, seen)"
    by (simp add: sellers_start_def)
  then show ?thesis
    by (rule sellers_trace_pages)
      (simp_all add: sellers_mounted_def sellers_initial_def fetchSellers_def)
qed

lemma appointments_step_pages:
  assumes "appointments_step e a = (t, rs)" and "appointments_admissible out seen e"
    and "1 \<le> currentPage a"
    and "\<forall>rq\<in>set out. 1 \<le> pageToFetch rq \<and> 1 \<le> previousPage rq"
    and "\<forall>c\<in>set seen. 1 \<le> currentPage c"
  shows "1 \<le> currentPage t \<and> (\<forall>rq\<in>set rs. 1 \<le> pageToFetch rq \<and> 1 \<le> previousPage rq)"
  using assms
  by (cases e)
    (auto simp: appointments_handler_defs fetchAppointments_def conforming_def Let_def
      split: option.splits prod.splits if_splits)

lemma appointments_settled_subset: "set (appointments_settled e out) \<subseteq> set out"
  by (cases e) (simp_all add: set_remove1_subset)

lemma appointments_trace_pages:
  assumes "appointments_trace es (a, out, fresh, seen) = Some (a', out', fresh', seen')"
    and "1 \<le> currentPage a"
    and "\<forall>rq\<in>set out. 1 \<le> pageToFetch rq \<and> 1 \<le> previousPage rq"
    and "\<forall>c\<in>set seen. 1 \<le> currentPage c"
  shows "1 \<le> currentPage a'"
  using assms
proof (induction es arbitrary: a out fresh seen)
  case Nil
  then show ?case by simp
next
  case (Cons e es)
  from Cons.prems(1) have adm: "appointments_admissible out seen e"
    by (simp split: if_splits)
  obtain t rs where step: "appointments_step e a = (t, rs)"
    by (cases "appointments_step e a")
  with Cons.prems(1) adm
  have rest: "appointments_trace es (t, appointments_settled e out @ rs,
      rs \<noteq> [] \<or> (fresh \<and> \<not> settling e), t # seen) = Some (a', out', fresh', seen')"
    by simp
  from appointments_step_pages [OF step adm Cons.prems(2-4)]
  have t: "1 \<le> currentPage t"
    and rs: "\<forall>rq\<in>set rs. 1 \<le> pageToFetch rq \<and> 1 \<le> previousPage rq"
    by simp_all
  have out: "\<forall>rq\<in>set (appointments_settled e out @ rs).
      1 \<le> pageToFetch rq \<and> 1 \<le> previousPage rq"
    using rs Cons.prems(3) appointments_settled_subset [of e out] by auto
  show ?case
    by (rule Cons.IH [OF rest]) (use t out Cons.prems(4) in simp_all)
qed

lemma appointments_reachable_page:
  assumes "appointments_trace es appointments_start = Some (a, out, fresh, seen)"
  shows "1 \<le> currentPage a"
proof -
  from assms have "appointments_trace es (fst appointments_mounted,
      [snd (appointments_mounted :: 'a appointments_state \<times> appointments_fetch)],
      True, [fst appointments_mounted]) = Some (a, out, fresh, seen)"
    by (simp add: appointments_start_def)
  then show ?thesis
    by (rule appointments_trace_pages)
      (simp_all add: appointments_mounted_def appointments_initial_def fetchAppointments_def)
qed

text \<open>
  C3. In every reachable state of either page the page shown to the user lies in
  the interval from 1 to \<open>totalPages\<close>: the effective page, and the page the
  indicator prints. The upper bound holds for every value of the current page and
  every total, because the source clamps with \<open>Math.min (currentPage, totalPages)\<close>;
  the lower bound holds because the current page of a reachable state is at least 1.
\<close>

theorem displayed_page_clamped:
  assumes "sellers_trace es sellers_start = Some (s, out, seen)"
    and "appointments_trace es' appointments_start = Some (a, out', fresh, seen')"
  shows "1 \<le> effectivePage SELLERS_PAGE_SIZE (currentPage s) (total_count s)
       \<and> effectivePage SELLERS_PAGE_SIZE (currentPage s) (total_count s)
           \<le> totalPages SELLERS_PAGE_SIZE (total_count s)
       \<and> 1 \<le> displayedPage SELLERS_PAGE_SIZE (currentPage s) (total_count s)
       \<and> displayedPage SELLERS_PAGE_SIZE (currentPage s) (total_count s)
           \<le> totalPages SELLERS_PAGE_SIZE (total_count s)
       \<and> 1 \<le> effectivePage APPOINTMENTS_PAGE_SIZE (currentPage a) (total_count a)
       \<and> effectivePage APPOINTMENTS_PAGE_SIZE (currentPage a) (total_count a)
           \<le> totalPages APPOINTMENTS_PAGE_SIZE (total_count a)
       \<and> 1 \<le> displayedPage APPOINTMENTS_PAGE_SIZE (currentPage a) (total_count a)
       \<and> displayedPage APPOINTMENTS_PAGE_SIZE (currentPage a) (total_count a)
           \<le> totalPages APPOINTMENTS_PAGE_SIZE (total_count a)
       \<and> effectivePage ps cp tot \<le> totalPages ps tot"
proof -
  have bounds: "1 \<le> effectivePage p c t \<and> effectivePage p c t \<le> totalPages p t
      \<and> 1 \<le> displayedPage p c t \<and> displayedPage p c t \<le> totalPages p t"
    if "1 \<le> c" for p c t
    using that effectivePage_lower [OF that, of p t] effectivePage_upper [of p c t]
      totalPages_ge_1 [of p t]
    by (simp add: displayedPage_def)
  from bounds [OF sellers_reachable_page [OF assms(1)]]
    bounds [OF appointments_reachable_page [OF assms(2)]]
    effectivePage_upper [of ps cp tot]
  show ?thesis by blast
qed

text \<open>
  The witness: the first response of the sellers page reports 45 sellers; the first
  response of the appointments page reports 45 calls and page 7, and the page shown
  is 3 of 3.
\<close>

theorem displayed_page_clamped_witness:
  "sellers_trace
      [FetchResolved (snd sellers_mounted)
         \<lparr>resp_data = [1, 2 :: nat], resp_total = 45, resp_page = None\<rparr>]
      sellers_start
     = Some (\<lparr>total_count = 45, currentPage = 1, isLoading = False, error = None,
               isModalOpen = False, sellers = [1, 2], search = '''', lastFetchedSearch = '''',
               editingSellerId = None, sellerPendingDeletion = None, isDeleting = False,
               latestRequestRef = 1, delay = None\<rparr>,
             [],
             [\<lparr>total_count = 45, currentPage = 1, isLoading = False, error = None,
               isModalOpen = False, sellers = [1, 2], search = '''', lastFetchedSearch = '''',
               editingSellerId = None, sellerPendingDeletion = None, isDeleting = False,
               latestRequestRef = 1, delay = None\<rparr>,
              fst sellers_mounted])
   \<and> appointments_trace
        [Loaded (snd appointments_mounted)
           \<lparr>resp_data = [1, 2 :: nat], resp_total = 45, resp_page = Some 7\<rparr>]
        appointments_start
     = Some (\<lparr>total_count = 45, currentPage = 7, isLoading = False, error = None,
               isModalOpen = False, appointments = [1, 2], selectedStatus = '''',
               editingAppointmentId = None, appointmentPendingDeletion = None,
               isDeletingAppointment = False\<rparr>,
             [], False,
             [\<lparr>total_count = 45, currentPage = 7, isLoading = False, error = None,
               isModalOpen = False, appointments = [1, 2], selectedStatus = '''',
               editingAppointmentId = None, appointmentPendingDeletion = None,
               isDeletingAppointment = False\<rparr>,
              fst appointments_mounted])
   \<and> effectivePage SELLERS_PAGE_SIZE 1 45 = 1 \<and> totalPages SELLERS_PAGE_SIZE 45 = 1
   \<and> effectivePage APPOINTMENTS_PAGE_SIZE 7 45 = 3
   \<and> displayedPage APPOINTMENTS_PAGE_SIZE 7 45 = 3
   \<and> totalPages APPOINTMENTS_PAGE_SIZE 45 = 3"
proof -
  let ?s = "\<lparr>total_count = 45, currentPage = 1, isLoading = False, error = None,
               isModalOpen = False, sellers = [1, 2 :: nat], search = '''', lastFetchedSearch = '''',
               editingSellerId = None, sellerPendingDeletion = None, isDeleting = False,
               latestRequestRef = 1, delay = None\<rparr>"
  let ?a = "\<lparr>total_count = 45, currentPage = 7, isLoading = False, error = None,
               isModalOpen = False, appointments = [1, 2 :: nat], selectedStatus = '''',
               editingAppointmentId = None, appointmentPendingDeletion = None,
               isDeletingAppointment = False\<rparr>"
  have sellers: "sellers_trace
      [FetchResolved (snd sellers_mounted)
         \<lparr>resp_data = [1, 2 :: nat], resp_total = 45, resp_page = None\<rparr>]
      sellers_start = Some (?s, [], [?s, fst sellers_mounted])"
    by (simp add: sellers_start_def sellers_mounted_def sellers_initial_def sellers_step_def
        fetchSellers_def fetchSellers_resolved_def debounceEffect_def conforming_def)
  have appointments: "appointments_trace
        [Loaded (snd appointments_mounted)
           \<lparr>resp_data = [1, 2 :: nat], resp_total = 45, resp_page = Some 7\<rparr>]
        appointments_start = Some (?a, [], False, [?a, fst appointments_mounted])"
    by (simp add: appointments_start_def appointments_mounted_def appointments_initial_def
        fetchAppointments_def fetchAppointments_resolved_def conforming_def)
  have shown: "effectivePage APPOINTMENTS_PAGE_SIZE 7 45 = 3"
    "effectivePage SELLERS_PAGE_SIZE 1 45 = 1"
    "displayedPage APPOINTMENTS_PAGE_SIZE 7 45 = 3"
    by (simp_all add: displayedPage_def effectivePage_def totalPages_examples)
  show ?thesis
    using sellers appointments shown
      displayed_page_clamped [OF sellers appointments, of APPOINTMENTS_PAGE_SIZE 7 45]
    by (simp add: totalPages_examples)
qed

subsection \<open>Loading while the latest fetch is in flight\<close>

lemma sellers_handle_shape:
  assumes "sellers_handle e s = (t, rs)"
  shows "(rs = [] \<and> latestRequestRef t = latestRequestRef s
          \<and> (isLoading s \<longrightarrow> isLoading t \<or> settles (latestRequestRef s) e))
       \<or> (\<exists>rq. rs = [rq] \<and> requestId rq = Suc (latestRequestRef s)
             \<and> latestRequestRef t = Suc (latestRequestRef s) \<and> isLoading t)"
  using assms
  by (cases e)
    (auto simp: sellers_handler_defs fetchSellers_def Let_def
      split: option.splits prod.splits if_splits)

lemma sellers_settled_unsettling:
  "\<not> settles n e \<Longrightarrow> rq \<in> set (sellers_settled e out) \<Longrightarrow> requestId rq = n
     \<Longrightarrow> n \<in> requestId ` set out"
  using sellers_settled_subset [of e out] by auto

lemma distinct_ids_remove1:
  assumes "distinct (map requestId out)"
  shows "distinct (map requestId (remove1 rq out))"
    and "rq \<in> set out \<Longrightarrow> requestId rq \<notin> requestId ` set (remove1 rq out)"
proof -
  from assms have d: "distinct out" and inj: "inj_on requestId (set out)"
    by (simp_all add: distinct_map)
  have sub: "set (remove1 rq out) \<subseteq> set out" by (rule set_remove1_subset)
  show "distinct (map requestId (remove1 rq out))"
    using d inj sub by (simp add: distinct_map inj_on_subset)
  show "requestId rq \<notin> requestId ` set (remove1 rq out)" if "rq \<in> set out"
  proof
    assume "requestId rq \<in> requestId ` set (remove1 rq out)"
    then obtain x where x: "x \<in> set (remove1 rq out)" and same: "requestId x = requestId rq"
      by auto
    from x sub have "x \<in> set out" by auto
    with inj that same have "x = rq" by (auto dest: inj_onD)
    with x d show False by simp
  qed
qed

lemma sellers_settled_distinct:
  "distinct (map requestId out) \<Longrightarrow> distinct (map requestId (sellers_settled e out))"
  by (cases e) (simp_all add: distinct_ids_remove1)

lemma sellers_settled_latest:
  assumes "settles n e" and "sellers_admissible out seen e" and "distinct (map requestId out)"
  shows "n \<notin> requestId ` set (sellers_settled e out)"
  using assms by (cases e) (auto dest: distinct_ids_remove1(2) simp del: set_remove1_eq)

lemma sellers_handle_in_flight:
  assumes handled: "sellers_handle e s = (t, rs)" and adm: "sellers_admissible out seen e"
    and ids: "\<forall>rq\<in>set out. requestId rq \<le> latestRequestRef s"
    and dist: "distinct (map requestId out)"
    and load: "latestRequestRef s \<in> requestId ` set out \<longrightarrow> isLoading s"
  shows "(\<forall>rq\<in>set (sellers_settled e out @ rs). requestId rq \<le> latestRequestRef t)
       \<and> distinct (map requestId (sellers_settled e out @ rs))
       \<and> (latestRequestRef t \<in> requestId ` set (sellers_settled e out @ rs) \<longrightarrow> isLoading t)"
proof -
  note sub = sellers_settled_subset [of e out]
  note dist' = sellers_settled_distinct [OF dist, of e]
  from sellers_handle_shape [OF handled] show ?thesis
  proof (elim disjE conjE exE)
    assume rs: "rs = []" and same: "latestRequestRef t = latestRequestRef s"
      and keep: "isLoading s \<longrightarrow> isLoading t \<or> settles (latestRequestRef s) e"
    have "isLoading t" if "latestRequestRef t \<in> requestId ` set (sellers_settled e out)"
    proof (cases "settles (latestRequestRef s) e")
      case True
      from sellers_settled_latest [OF True adm dist] that same show ?thesis by simp
    next
      case False
      from that same sub have "latestRequestRef s \<in> requestId ` set out" by auto
      with load keep False show ?thesis by simp
    qed
    then show ?thesis
      using rs same ids sub dist' by auto
  next
    fix rq
    assume rs: "rs = [rq]" and rq: "requestId rq = Suc (latestRequestRef s)"
      and next_id: "latestRequestRef t = Suc (latestRequestRef s)" and loading: "isLoading t"
    have old: "\<forall>x\<in>set (sellers_settled e out). requestId x \<le> latestRequestRef s"
      using ids sub by auto
    then have "requestId rq \<notin> requestId ` set (sellers_settled e out)"
      using rq by auto
    then show ?thesis
      using rs rq next_id loading old dist' by auto
  qed
qed

lemma sellers_trace_in_flight:
  assumes "sellers_trace es (s, out, seen) = Some (s', out', seen')"
    and "\<forall>rq\<in>set out. requestId rq \<le> latestRequestRef s"
    and "distinct (map requestId out)"
    and "latestRequestRef s \<in> requestId ` set out \<longrightarrow> isLoading s"
  shows "latestRequestRef s' \<in> requestId ` set out' \<longrightarrow> isLoading s'"
  using assms
proof (induction es arbitrary: s out seen)
  case Nil
  then show ?case by simp
next
  case (Cons e es)
  from Cons.prems(1) have adm: "sellers_admissible out seen e"
    by (simp split: if_splits)
  obtain t rs where handled: "sellers_handle e s = (t, rs)"
    by (cases "sellers_handle e s")
  then have step: "sellers_step e s = (debounceEffect s t, rs)"
    by (simp add: sellers_step_def)
  with Cons.prems(1) adm
  have rest: "sellers_trace es (debounceEffect s t, sellers_settled e out @ rs,
      debounceEffect s t # seen) = Some (s', out', seen')"
    by simp
  from sellers_handle_in_flight [OF handled adm Cons.prems(2-4)]
  show ?case
    by (intro Cons.IH [OF rest]) simp_all
qed

lemma sellers_reachable_loading:
  assumes "sellers_trace es sellers_start = Some (s, out, seen)"
    and "latest_in_flight s out"
  shows "isLoading s"
proof -
  from assms(1) have "sellers_trace es (fst sellers_mounted,
      [snd (sellers_mounted :: 'a sellers_state \<times> sellers_fetch)],
      [fst sellers_mounted]) = Some (s, out, seen)"
    by (simp add: sellers_start_def)
  then have "latestRequestRef s \<in> requestId ` set out \<longrightarrow> isLoading s"
    by (rule sellers_trace_in_flight)
      (simp_all add: sellers_mounted_def sellers_initial_def fetchSellers_def)
  with assms(2) show ?thesis by (simp add: latest_in_flight_def)
qed

lemma appointments_step_shape:
  assumes "appointments_step e a = (t, rs)"
  shows "(rs \<noteq> [] \<and> isLoading t) \<or> (rs = [] \<and> settling e \<and> \<not> isLoading t)
       \<or> (rs = [] \<and> \<not> settling e \<and> isLoading t = isLoading a)"
  using assms
  by (cases e)
    (auto simp: appointments_handler_defs fetchAppointments_def Let_def
      split: option.splits prod.splits if_splits)

lemma appointments_settled_other: "\<not> settling e \<Longrightarrow> appointments_settled e out = out"
  by (cases e) simp_all

lemma appointments_trace_loading:
  assumes "appointments_trace es (a, out, fresh, seen) = Some (a', out', fresh', seen')"
    and "fresh \<longrightarrow> isLoading a" and "out = [] \<longrightarrow> \<not> isLoading a"
  shows "(fresh' \<longrightarrow> isLoading a') \<and> (out' = [] \<longrightarrow> \<not> isLoading a')"
  using assms
proof (induction es arbitrary: a out fresh seen)
  case Nil
  then show ?case by simp
next
  case (Cons e es)
  from Cons.prems(1) have adm: "appointments_admissible out seen e"
    by (simp split: if_splits)
  obtain t rs where step: "appointments_step e a = (t, rs)"
    by (cases "appointments_step e a")
  with Cons.prems(1) adm
  have rest: "appointments_trace es (t, appointments_settled e out @ rs,
      rs \<noteq> [] \<or> (fresh \<and> \<not> settling e), t # seen) = Some (a', out', fresh', seen')"
    by simp
  from appointments_step_shape [OF step] Cons.prems(2,3)
  have "rs \<noteq> [] \<or> (fresh \<and> \<not> settling e) \<longrightarrow> isLoading t"
    and "appointments_settled e out @ rs = [] \<longrightarrow> \<not> isLoading t"
    by (auto simp: appointments_settled_other)
  then show ?case
    by (rule Cons.IH [OF rest])
qed

lemma appointments_reachable_loading:
  assumes "appointments_trace es appointments_start = Some (a, out, fresh, seen)"
  shows "fresh \<longrightarrow> isLoading a" and "out = [] \<longrightarrow> \<not> isLoading a"
proof -
  from assms have "appointments_trace es (fst appointments_mounted,
      [snd (appointments_mounted :: 'a appointments_state \<times> appointments_fetch)],
      True, [fst appointments_mounted]) = Some (a, out, fresh, seen)"
    by (simp add: appointments_start_def)
  then have "(fresh \<longrightarrow> isLoading a) \<and> (out = [] \<longrightarrow> \<not> isLoading a)"
    by (rule appointments_trace_loading)
      (simp_all add: appointments_mounted_def appointments_initial_def fetchAppointments_def)
  then show "fresh \<longrightarrow> isLoading a" and "out = [] \<longrightarrow> \<not> isLoading a"
    by simp_all
qed

text \<open>
  C6. In a reachable configuration a page change to \<open>n\<close> changes nothing and
  issues nothing when \<open>n < 1\<close>, \<open>n > totalPages\<close>, \<open>n\<close> is the current page, or
  the latest fetch is in flight: on the sellers page the fetch that holds the latest
  request number, on the appointments page the fetch issued last as long as no
  fetch has settled since. When \<open>n\<close> is a page from 1 to \<open>totalPages\<close> other than
  the current one, the change issues exactly one request for page \<open>n\<close>, makes
  \<open>n\<close> the current page, sets the loading flag and clears the error: on the
  appointments page when no fetch is in flight, with the selected status; on the
  sellers page when the page is not loading, with the text of the search box, that
  is the pending term when it differs from the last fetched one, and the render
  that follows arms the debounce timer again when the search is dirty.
\<close>

theorem goToPage_guard:
  assumes "sellers_trace es sellers_start = Some (s, out, seen)"
    and "appointments_trace es' appointments_start = Some (a, out', fresh, seen')"
  shows "(n < 1 \<or> n > totalPages SELLERS_PAGE_SIZE (total_count s) \<or> n = currentPage s
            \<or> latest_in_flight s out
          \<longrightarrow> sellers_step (PageChange n) s = (s, []))
       \<and> (\<not> (n < 1 \<or> n > totalPages SELLERS_PAGE_SIZE (total_count s) \<or> n = currentPage s)
            \<and> \<not> isLoading s
          \<longrightarrow> sellers_step (PageChange n) s
                = (s\<lparr>currentPage := n, latestRequestRef := Suc (latestRequestRef s),
                      isLoading := True, error := None,
                      delay := (if search s \<noteq> lastFetchedSearch s
                                then Some (300, search s) else None)\<rparr>,
                   [\<lparr>pageToFetch = n, previousPage = currentPage s,
                     requestId = Suc (latestRequestRef s), searchTerm = search s\<rparr>]))
       \<and> (n < 1 \<or> n > totalPages APPOINTMENTS_PAGE_SIZE (total_count a) \<or> n = currentPage a
            \<or> fresh
          \<longrightarrow> appointments_step (GoToPage n) a = (a, []))
       \<and> (\<not> (n < 1 \<or> n > totalPages APPOINTMENTS_PAGE_SIZE (total_count a)
                \<or> n = currentPage a)
            \<and> out' = []
          \<longrightarrow> appointments_step (GoToPage n) a
                = (a\<lparr>currentPage := n, isLoading := True, error := None\<rparr>,
                   [\<lparr>pageToFetch = n, previousPage = currentPage a,
                     statusFilter = selectedStatus a\<rparr>]))"
proof (intro conjI impI)
  assume "n < 1 \<or> n > totalPages SELLERS_PAGE_SIZE (total_count s) \<or> n = currentPage s
      \<or> latest_in_flight s out"
  with sellers_reachable_loading [OF assms(1)]
  have "n < 1 \<or> n > totalPages SELLERS_PAGE_SIZE (total_count s) \<or> n = currentPage s
      \<or> isLoading s"
    by blast
  then show "sellers_step (PageChange n) s = (s, [])"
    by (auto simp: sellers_step_def sellers_handlePageChange_def debounceEffect_def)
next
  assume "n < 1 \<or> n > totalPages APPOINTMENTS_PAGE_SIZE (total_count a) \<or> n = currentPage a
      \<or> fresh"
  with appointments_reachable_loading(1) [OF assms(2)]
  have "n < 1 \<or> n > totalPages APPOINTMENTS_PAGE_SIZE (total_count a) \<or> n = currentPage a
      \<or> isLoading a"
    by blast
  then show "appointments_step (GoToPage n) a = (a, [])"
    by (auto simp: appointments_handlePageChange_def)
next
  assume "\<not> (n < 1 \<or> n > totalPages APPOINTMENTS_PAGE_SIZE (total_count a)
      \<or> n = currentPage a) \<and> out' = []"
  with appointments_reachable_loading(2) [OF assms(2)]
  have "\<not> (n < 1 \<or> n > totalPages APPOINTMENTS_PAGE_SIZE (total_count a)
      \<or> n = currentPage a \<or> isLoading a)"
    by blast
  then show "appointments_step (GoToPage n) a
      = (a\<lparr>currentPage := n, isLoading := True, error := None\<rparr>,
         [\<lparr>pageToFetch = n, previousPage = currentPage a,
           statusFilter = selectedStatus a\<rparr>])"
    by (simp add: appointments_handlePageChange_def fetchAppointments_def)
next
  assume go: "\<not> (n < 1 \<or> n > totalPages SELLERS_PAGE_SIZE (total_count s) \<or> n = currentPage s)
      \<and> \<not> isLoading s"
  then have handled: "sellers_handlePageChange n s
      = (s\<lparr>currentPage := n, latestRequestRef := Suc (latestRequestRef s),
            isLoading := True, error := None\<rparr>,
         [\<lparr>pageToFetch = n, previousPage = currentPage s,
           requestId = Suc (latestRequestRef s), searchTerm = search s\<rparr>])"
    by (simp add: sellers_handlePageChange_def fetchSellers_def isSearchDirty_def)
  from go have moved: "n \<noteq> currentPage s"
    by simp
  show "sellers_step (PageChange n) s
      = (s\<lparr>currentPage := n, latestRequestRef := Suc (latestRequestRef s),
            isLoading := True, error := None,
            delay := (if search s \<noteq> lastFetchedSearch s
                      then Some (300, search s) else None)\<rparr>,
         [\<lparr>pageToFetch = n, previousPage = currentPage s,
           requestId = Suc (latestRequestRef s), searchTerm = search s\<rparr>])"
    using moved by (simp add: sellers_step_def handled debounceEffect_def isSearchDirty_def)
qed

text \<open>
  The witness: while the first request of either page is in flight a change to
  page 2 is ignored; once it has brought three pages (120 sellers, 45 calls) a
  change to page 5 is ignored and a change to page 2 issues one request.
\<close>

theorem goToPage_guard_witness:
  "sellers_trace [] (sellers_start :: nat sellers_config)
     = Some (fst sellers_mounted,
             [snd (sellers_mounted :: nat sellers_state \<times> sellers_fetch)],
             [fst sellers_mounted])
   \<and> latest_in_flight (fst (sellers_mounted :: nat sellers_state \<times> sellers_fetch))
        [snd (sellers_mounted :: nat sellers_state \<times> sellers_fetch)]
   \<and> sellers_step (PageChange 2) (fst (sellers_mounted :: nat sellers_state \<times> sellers_fetch))
       = (fst sellers_mounted, [])
   \<and> appointments_trace [] (appointments_start :: nat appointments_config)
     = Some (fst appointments_mounted,
             [snd (appointments_mounted :: nat appointments_state \<times> appointments_fetch)],
             True, [fst appointments_mounted])
   \<and> appointments_step (GoToPage 2)
        (fst (appointments_mounted :: nat appointments_state \<times> appointments_fetch))
       = (fst appointments_mounted, [])
   \<and> sellers_trace
        [FetchResolved (snd (sellers_mounted :: nat sellers_state \<times> sellers_fetch))
           \<lparr>resp_data = [1, 2 :: nat], resp_total = 120, resp_page = Some 1\<rparr>]
        sellers_start
     = Some (\<lparr>total_count = 120, currentPage = 1, isLoading = False, error = None,
               isModalOpen = False, sellers = [1, 2], search = '''', lastFetchedSearch = '''',
               editingSellerId = None, sellerPendingDeletion = None, isDeleting = False,
               latestRequestRef = 1, delay = None\<rparr>,
             [],
             [\<lparr>total_count = 120, currentPage = 1, isLoading = False, error = None,
               isModalOpen = False, sellers = [1, 2], search = '''', lastFetchedSearch = '''',
               editingSellerId = None, sellerPendingDeletion = None, isDeleting = False,
               latestRequestRef = 1, delay = None\<rparr>,
              fst sellers_mounted])
   \<and> appointments_trace
        [Loaded (snd (appointments_mounted :: nat appointments_state \<times> appointments_fetch))
           \<lparr>resp_data = [1, 2 :: nat], resp_total = 45, resp_page = Some 1\<rparr>,
         StatusChange ''NO_SHOW'',
         Loaded \<lparr>pageToFetch = 1, previousPage = 1, statusFilter = ''NO_SHOW''\<rparr>
           \<lparr>resp_data = [1, 2 :: nat], resp_total = 45, resp_page = Some 1\<rparr>]
        appointments_start
     = Some (\<lparr>total_count = 45, currentPage = 1, isLoading = False, error = None,
               isModalOpen = False, appointments = [1, 2], selectedStatus = ''NO_SHOW'',
               editingAppointmentId = None, appointmentPendingDeletion = None,
               isDeletingAppointment = False\<rparr>,
             [], False,
             [\<lparr>total_count = 45, currentPage = 1, isLoading = False, error = None,
               isModalOpen = False, appointments = [1, 2], selectedStatus = ''NO_SHOW'',
               editingAppointmentId = None, appointmentPendingDeletion = None,
               isDeletingAppointment = False\<rparr>,
              \<lparr>total_count = 45, currentPage = 1, isLoading = True, error = None,
               isModalOpen = False, appointments = [1, 2], selectedStatus = ''NO_SHOW'',
               editingAppointmentId = None, appointmentPendingDeletion = None,
               isDeletingAppointment = False\<rparr>,
              \<lparr>total_count = 45, currentPage = 1, isLoading = False, error = None,
               isModalOpen = False, appointments = [1, 2], selectedStatus = '''',
               editingAppointmentId = None, appointmentPendingDeletion = None,
               isDeletingAppointment = False\<rparr>,
              fst appointments_mounted])
   \<and> totalPages SELLERS_PAGE_SIZE 120 = 3 \<and> totalPages APPOINTMENTS_PAGE_SIZE 45 = 3
   \<and> sellers_step (PageChange 5)
        \<lparr>total_count = 120, currentPage = 1, isLoading = False, error = None,
         isModalOpen = False, sellers = [1, 2 :: nat], search = '''', lastFetchedSearch = '''',
         editingSellerId = None, sellerPendingDeletion = None, isDeleting = False,
         latestRequestRef = 1, delay = None\<rparr>
       = (\<lparr>total_count = 120, currentPage = 1, isLoading = False, error = None,
           isModalOpen = False, sellers = [1, 2], search = '''', lastFetchedSearch = '''',
           editingSellerId = None, sellerPendingDeletion = None, isDeleting = False,
           latestRequestRef = 1, delay = None\<rparr>, [])
   \<and> sellers_step (PageChange 2)
        \<lparr>total_count = 120, currentPage = 1, isLoading = False, error = None,
         isModalOpen = False, sellers = [1, 2 :: nat], search = '''', lastFetchedSearch = '''',
         editingSellerId = None, sellerPendingDeletion = None, isDeleting = False,
         latestRequestRef = 1, delay = None\<rparr>
       = (\<lparr>total_count = 120, currentPage = 2, isLoading = True, error = None,
           isModalOpen = False, sellers = [1, 2], search = '''', lastFetchedSearch = '''',
           editingSellerId = None, sellerPendingDeletion = None, isDeleting = False,
           latestRequestRef = 2, delay = None\<rparr>,
          [\<lparr>pageToFetch = 2, previousPage = 1, requestId = 2, searchTerm = ''''\<rparr>])
   \<and> appointments_step (GoToPage 5)
        \<lparr>total_count = 45, currentPage = 1, isLoading = False, error = None,
         isModalOpen = False, appointments = [1, 2 :: nat], selectedStatus = ''NO_SHOW'',
         editingAppointmentId = None, appointmentPendingDeletion = None,
         isDeletingAppointment = False\<rparr>
       = (\<lparr>total_count = 45, currentPage = 1, isLoading = False, error = None,
           isModalOpen = False, appointments = [1, 2], selectedStatus = ''NO_SHOW'',
           editingAppointmentId = None, appointmentPendingDeletion = None,
           isDeletingAppointment = False\<rparr>, [])
   \<and> appointments_step (GoToPage 2)
        \<lparr>total_count = 45, currentPage = 1, isLoading = False, error = None,
         isModalOpen = False, appointments = [1, 2 :: nat], selectedStatus = ''NO_SHOW'',
         editingAppointmentId = None, appointmentPendingDeletion = None,
         isDeletingAppointment = False\<rparr>
       = (\<lparr>total_count = 45, currentPage = 2, isLoading = True, error = None,
           isModalOpen = False, appointments = [1, 2], selectedStatus = ''NO_SHOW'',
           editingAppointmentId = None, appointmentPendingDeletion = None,
           isDeletingAppointment = False\<rparr>,
          [\<lparr>pageToFetch = 2, previousPage = 1, statusFilter = ''NO_SHOW''\<rparr>])"
proof -
  let ?sm = "fst (sellers_mounted :: nat sellers_state \<times> sellers_fetch)"
  let ?rm = "snd (sellers_mounted :: nat sellers_state \<times> sellers_fetch)"
  let ?am = "fst (appointments_mounted :: nat appointments_state \<times> appointments_fetch)"
  let ?qm = "snd (appointments_mounted :: nat appointments_state \<times> appointments_fetch)"
  let ?s = "\<lparr>total_count = 120, currentPage = 1, isLoading = False, error = None,
         isModalOpen = False, sellers = [1, 2 :: nat], search = '''', lastFetchedSearch = '''',
         editingSellerId = None, sellerPendingDeletion = None, isDeleting = False,
         latestRequestRef = 1, delay = None\<rparr>"
  let ?first = "\<lparr>total_count = 45, currentPage = 1, isLoading = False, error = None,
         isModalOpen = False, appointments = [1, 2 :: nat], selectedStatus = '''',
         editingAppointmentId = None, appointmentPendingDeletion = None,
         isDeletingAppointment = False\<rparr>"
  let ?second = "\<lparr>total_count = 45, currentPage = 1, isLoading = True, error = None,
         isModalOpen = False, appointments = [1, 2 :: nat], selectedStatus = ''NO_SHOW'',
         editingAppointmentId = None, appointmentPendingDeletion = None,
         isDeletingAppointment = False\<rparr>"
  let ?a = "\<lparr>total_count = 45, currentPage = 1, isLoading = False, error = None,
         isModalOpen = False, appointments = [1, 2 :: nat], selectedStatus = ''NO_SHOW'',
         editingAppointmentId = None, appointmentPendingDeletion = None,
         isDeletingAppointment = False\<rparr>"
  have mounted: "sellers_trace [] sellers_start = Some (?sm, [?rm], [?sm])"
    by (simp add: sellers_start_def)
  have mounted': "appointments_trace [] appointments_start = Some (?am, [?qm], True, [?am])"
    by (simp add: appointments_start_def)
  have flying: "latest_in_flight ?sm [?rm]"
    by (simp add: latest_in_flight_def sellers_mounted_def sellers_initial_def fetchSellers_def)
  have loaded: "sellers_trace
      [FetchResolved ?rm \<lparr>resp_data = [1, 2 :: nat], resp_total = 120, resp_page = Some 1\<rparr>]
      sellers_start = Some (?s, [], [?s, ?sm])"
    by (simp add: sellers_start_def sellers_mounted_def sellers_initial_def sellers_step_def
        fetchSellers_def fetchSellers_resolved_def debounceEffect_def conforming_def)
  have loaded': "appointments_trace
      [Loaded ?qm \<lparr>resp_data = [1, 2 :: nat], resp_total = 45, resp_page = Some 1\<rparr>,
       StatusChange ''NO_SHOW'',
       Loaded \<lparr>pageToFetch = 1, previousPage = 1, statusFilter = ''NO_SHOW''\<rparr>
         \<lparr>resp_data = [1, 2 :: nat], resp_total = 45, resp_page = Some 1\<rparr>]
      appointments_start = Some (?a, [], False, [?a, ?second, ?first, ?am])"
    by (simp add: appointments_start_def appointments_mounted_def appointments_initial_def
        fetchAppointments_def fetchAppointments_resolved_def onStatusChange_def
        conforming_def)
  have pages: "totalPages SELLERS_PAGE_SIZE 120 = 3" "totalPages APPOINTMENTS_PAGE_SIZE 45 = 3"
    by (simp_all add: totalPages_examples)
  have waiting: "sellers_step (PageChange 2) ?sm = (?sm, [])"
    using goToPage_guard [OF mounted mounted', of 2] flying by blast
  have waiting': "appointments_step (GoToPage 2) ?am = (?am, [])"
    using goToPage_guard [OF mounted mounted', of 2] by blast
  have beyond: "sellers_step (PageChange 5) ?s = (?s, [])"
    using goToPage_guard [OF loaded loaded', of 5] pages by simp
  have beyond': "appointments_step (GoToPage 5) ?a = (?a, [])"
    using goToPage_guard [OF loaded loaded', of 5] pages by simp
  have moved: "sellers_step (PageChange 2) ?s
      = (\<lparr>total_count = 120, currentPage = 2, isLoading = True, error = None,
           isModalOpen = False, sellers = [1, 2], search = '''', lastFetchedSearch = '''',
           editingSellerId = None, sellerPendingDeletion = None, isDeleting = False,
           latestRequestRef = 2, delay = None\<rparr>,
          [\<lparr>pageToFetch = 2, previousPage = 1, requestId = 2, searchTerm = ''''\<rparr>])"
    using goToPage_guard [OF loaded loaded', of 2] pages by simp
  have moved': "appointments_step (GoToPage 2) ?a
      = (\<lparr>total_count = 45, currentPage = 2, isLoading = True, error = None,
           isModalOpen = False, appointments = [1, 2], selectedStatus = ''NO_SHOW'',
           editingAppointmentId = None, appointmentPendingDeletion = None,
           isDeletingAppointment = False\<rparr>,
          [\<lparr>pageToFetch = 2, previousPage = 1, statusFilter = ''NO_SHOW''\<rparr>])"
    using goToPage_guard [OF loaded loaded', of 2] pages by simp
  show ?thesis
    by (intro conjI mounted mounted' flying loaded loaded' pages waiting waiting' beyond
        beyond' moved moved')
qed

text \<open>
  As stated, with the currently applied search and with any fetch in flight, the
  claim fails on the sellers page. The mounted page is waiting for its first
  response when the user types \<open>a\<close>; the response (120 sellers, fetched with the
  empty search) arrives before the debounce timer fires, so the applied search is
  still empty and the page is not loading. A change to page 2 now asks the server
  for page 2 of the search \<open>a\<close>. And when the user presses Enter in the search box
  while the first request is in flight, and the response to the second request
  arrives first, the first request is still in flight, superseded, and a change to
  page 2 issues a request.
\<close>

theorem goToPage_guard_counterexample:
  "sellers_run
      [SearchChange ''a'',
       FetchResolved (snd sellers_mounted)
         \<lparr>resp_data = [1, 2 :: nat], resp_total = 120, resp_page = Some 1\<rparr>]
      (fst sellers_mounted)
     = (\<lparr>total_count = 120, currentPage = 1, isLoading = False, error = None,
         isModalOpen = False, sellers = [1, 2], search = ''a'', lastFetchedSearch = '''',
         editingSellerId = None, sellerPendingDeletion = None, isDeleting = False,
         latestRequestRef = 1, delay = Some (300, ''a'')\<rparr>, [])
   \<and> snd (sellers_step (PageChange 2)
        \<lparr>total_count = 120, currentPage = 1, isLoading = False, error = None,
         isModalOpen = False, sellers = [1, 2 :: nat], search = ''a'', lastFetchedSearch = '''',
         editingSellerId = None, sellerPendingDeletion = None, isDeleting = False,
         latestRequestRef = 1, delay = Some (300, ''a'')\<rparr>)
     = [\<lparr>pageToFetch = 2, previousPage = 1, requestId = 2, searchTerm = ''a''\<rparr>]
   \<and> sellers_params \<lparr>pageToFetch = 2, previousPage = 1, requestId = 2, searchTerm = ''a''\<rparr>
     = (2, 50, Some ''a'')
   \<and> searchTerm \<lparr>pageToFetch = 2, previousPage = 1, requestId = 2, searchTerm = ''a''\<rparr>
     \<noteq> lastFetchedSearch
         \<lparr>total_count = 120, currentPage = 1, isLoading = False, error = None,
          isModalOpen = False, sellers = [1, 2 :: nat], search = ''a'', lastFetchedSearch = '''',
          editingSellerId = None, sellerPendingDeletion = None, isDeleting = False,
          latestRequestRef = 1, delay = Some (300, ''a'')\<rparr>
   \<and> map_option fst (sellers_trace
        [SearchEnter,
         FetchResolved \<lparr>pageToFetch = 1, previousPage = 1, requestId = 2, searchTerm = ''''\<rparr>
           \<lparr>resp_data = [1, 2 :: nat], resp_total = 120, resp_page = Some 1\<rparr>]
        sellers_start)
     = Some \<lparr>total_count = 120, currentPage = 1, isLoading = False, error = None,
         isModalOpen = False, sellers = [1, 2], search = '''', lastFetchedSearch = '''',
         editingSellerId = None, sellerPendingDeletion = None, isDeleting = False,
         latestRequestRef = 2, delay = None\<rparr>
   \<and> map_option (fst \<circ> snd) (sellers_trace
        [SearchEnter,
         FetchResolved \<lparr>pageToFetch = 1, previousPage = 1, requestId = 2, searchTerm = ''''\<rparr>
           \<lparr>resp_data = [1, 2 :: nat], resp_total = 120, resp_page = Some 1\<rparr>]
        sellers_start)
     = Some [\<lparr>pageToFetch = 1, previousPage = 1, requestId = 1, searchTerm = ''''\<rparr>]
   \<and> snd (sellers_step (PageChange 2)
        \<lparr>total_count = 120, currentPage = 1, isLoading = False, error = None,
         isModalOpen = False, sellers = [1, 2 :: nat], search = '''', lastFetchedSearch = '''',
         editingSellerId = None, sellerPendingDeletion = None, isDeleting = False,
         latestRequestRef = 2, delay = None\<rparr>)
     = [\<lparr>pageToFetch = 2, previousPage = 1, requestId = 3, searchTerm = ''''\<rparr>]"
proof -
  have pages: "totalPages 50 120 = 3"
    by code_simp
  show ?thesis
    by (simp add: sellers_start_def sellers_mounted_def sellers_initial_def sellers_step_def
        handleSearchChange_def fetchSellers_def fetchSellers_resolved_def debounceEffect_def
        isSearchDirty_def sellers_handlePageChange_def onSearchEnter_def conforming_def
        pages sellers_params_def SELLERS_PAGE_SIZE_def)
qed

end
